theory Spec2Isabelle
  imports Complex_Main "HOL-Library.Multiset"
begin

section \<open>Common data: errors, functional data objects\<close>

text \<open>
  Python exceptions are values. \<open>ValueError\<close> carries the raise site, so that two
  \<open>raise ValueError(...)\<close> statements with different messages stay apart.
\<close>

datatype value_error =
    TwoLabels nat          \<comment> \<open>"RK-VS can only be used when there are only two different labels, but there are n"\<close>
  | DomainCodomain         \<comment> \<open>"Domain and codomain dimensions must be 1"\<close>
  | CheckXy                \<comment> \<open>raised inside sklearn's \<open>check_X_y\<close> / \<open>check_array\<close>\<close>
  | DifferentPoints        \<comment> \<open>"The trajectories have a different number of points than the ones fitted"\<close>
  | NotGridOrIrregular     \<comment> \<open>"fd must be a FDataGrid or FDataIrregular"\<close>
  | Broadcast              \<comment> \<open>numpy: operands could not be broadcast together / matmul shape mismatch\<close>
  | EmptySequence          \<comment> \<open>numpy: attempt to get argmax of an empty sequence\<close>
  | PercentileRange        \<comment> \<open>numpy: percentiles must be in the range [0, 100]\<close>

datatype error =
    ValueError value_error
  | AssertionError
  | NotFittedError
  | AttributeError
  | IndexError
  | ZeroDivisionError
  | LinAlgError

text \<open>
  \<open>FDataGrid\<close>: the attributes the code reads. \<open>grid_points\<close> holds one array per
  domain dimension; \<open>data_matrix\<close> is indexed by sample, grid point and codomain
  coordinate (the layout for a one-dimensional domain, the only one whose entries the
  code reads). \<open>FDataIrregular\<close> stores its observation points as the rows of \<open>points\<close>.
\<close>

record FDataGrid =
  grid_points :: "real list list"
  data_matrix :: "real list list list"
  dim_codomain :: nat

definition n_samples :: "FDataGrid \<Rightarrow> nat" where
  "n_samples X = length (data_matrix X)"

definition dim_domain :: "FDataGrid \<Rightarrow> nat" where
  "dim_domain X = length (grid_points X)"

record FDataIrregular =
  points :: "real list list"
  values_irr :: "real list list"

record FDataBasis =
  coefficients :: "real list list"

datatype FData = Grid FDataGrid | Irregular FDataIrregular | Basis FDataBasis

section \<open>Outliergram outlier detector\<close>

text \<open>
  \<open>skfda/exploratory/outliers/_outliergram.py\<close>. Floating-point numbers are modelled as
  reals. The depth (\<open>ModifiedBandDepth()\<close>) and \<open>modified_epigraph_index\<close> are imported
  from other modules of the package
  (\<open>skfda.exploratory.depth\<close>, \<open>skfda.exploratory.stats\<close>): they are parameters \<open>depth\<close> and \<open>mei\<close> of the
  model, each returning one value per function or raising.
\<close>

record OutliergramOutlierDetector =
  factor :: real
  mbd_fit :: "real list option"
  mei_fit :: "real list option"
  parabola_fit :: "real list option"
  distances_fit :: "real list option"
  max_inlier_distance_fit :: "real option"

definition default_factor :: real where
  "default_factor = 1.5"

text \<open>\<open>__init__(self, *, factor=1.5)\<close>: only \<open>factor\<close> is set; no fitted attribute exists yet.\<close>

definition OutliergramOutlierDetector_init :: "real \<Rightarrow> OutliergramOutlierDetector" where
  "OutliergramOutlierDetector_init f =
     \<lparr>factor = f, mbd_fit = None, mei_fit = None, parabola_fit = None, distances_fit = None,
      max_inlier_distance_fit = None\<rparr>"

text \<open>Python's true division of numbers: a zero divisor raises.\<close>

definition py_truediv :: "real \<Rightarrow> real \<Rightarrow> error + real" where
  "py_truediv a b = (if b = 0 then Inl ZeroDivisionError else Inr (a / b))"

text \<open>
  \<open>_compute_parabola\<close>: \<open>a_0\<close>, \<open>a_1\<close> are Python numbers computed from the integer
  \<open>X.n_samples\<close>; the returned expression is elementwise in \<open>self.mei_\<close>.
\<close>

definition compute_parabola :: "OutliergramOutlierDetector \<Rightarrow> FDataGrid \<Rightarrow> error + real list" where
  "compute_parabola self X =
     (let n = int (n_samples X) in
      case py_truediv (- 2) (real_of_int (n * (n - 1))) of
        Inl e \<Rightarrow> Inl e
      | Inr a_0 \<Rightarrow>
     (case py_truediv (real_of_int (2 * (n + 1))) (real_of_int (n - 1)) of
        Inl e \<Rightarrow> Inl e
      | Inr a_1 \<Rightarrow>
     (let a_2 = a_0 in
      case mei_fit self of
        None \<Rightarrow> Inl AttributeError
      | Some mei \<Rightarrow>
          Inr (map (\<lambda>m. a_0 + a_1 * m + real_of_int (n ^ 2) * a_2 * m ^ 2) mei))))"

text \<open>
  \<open>np.percentile(a, q)\<close> with numpy's default linear interpolation: on the sorted data,
  the virtual index is \<open>(n - 1) * q / 100\<close>, and the result interpolates between its two
  neighbours. On an empty array numpy has no element to return (it fails or yields nan,
  depending on its version); the model raises there.
\<close>

definition percentile :: "real list \<Rightarrow> real \<Rightarrow> error + real" where
  "percentile a q =
     (if q < 0 \<or> 100 < q then Inl (ValueError PercentileRange)
      else
        let s = sort a; n = length s in
        if n = 0 then Inl IndexError
        else
          let h = real (n - 1) * (q / 100);
              lo = nat \<lfloor>h\<rfloor>;
              hi = min (lo + 1) (n - 1);
              g = h - real lo
          in Inr (s ! lo + g * (s ! hi - s ! lo)))"

definition compute_maximum_inlier_distance ::
  "OutliergramOutlierDetector \<Rightarrow> real list \<Rightarrow> error + real" where
  "compute_maximum_inlier_distance self distances =
     (case percentile distances 25 of
        Inl e \<Rightarrow> Inl e
      | Inr first_quartile \<Rightarrow>
     (case percentile distances 75 of
        Inl e \<Rightarrow> Inl e
      | Inr third_quartile \<Rightarrow>
          (let iqr = third_quartile - first_quartile
           in Inr (third_quartile + factor self * iqr))))"

text \<open>
  Elementwise subtraction of two one-dimensional arrays with numpy's broadcasting: equal
  lengths, or one operand of length one.
\<close>

definition np_subtract :: "real list \<Rightarrow> real list \<Rightarrow> error + real list" where
  "np_subtract a b =
     (if length a = length b then Inr (map2 (-) a b)
      else if length a = 1 then Inr (map (\<lambda>y. hd a - y) b)
      else if length b = 1 then Inr (map (\<lambda>x. x - hd b) a)
      else Inl (ValueError Broadcast))"

text \<open>
  \<open>fit\<close> mutates \<open>self\<close> statement by statement, so the model returns the object as it
  is when the method ends, together with the exception if one was raised. A fitted
  attribute \<open>x_\<close> of the Python object is the field \<open>x_fit\<close> of the record, \<open>None\<close> while the
  attribute does not exist.
\<close>

definition outliergram_fit ::
  "(FDataGrid \<Rightarrow> error + real list) \<Rightarrow> (FDataGrid \<Rightarrow> error + real list) \<Rightarrow>
   OutliergramOutlierDetector \<Rightarrow> FDataGrid \<Rightarrow> OutliergramOutlierDetector \<times> error option" where
  "outliergram_fit depth mei self X =
     (case depth X of
        Inl e \<Rightarrow> (self, Some e)
      | Inr mbd \<Rightarrow>
     (let self1 = self\<lparr>mbd_fit := Some mbd\<rparr> in
      case mei X of
        Inl e \<Rightarrow> (self1, Some e)
      | Inr m \<Rightarrow>
     (let self2 = self1\<lparr>mei_fit := Some m\<rparr> in
      case compute_parabola self2 X of
        Inl e \<Rightarrow> (self2, Some e)
      | Inr p \<Rightarrow>
     (let self3 = self2\<lparr>parabola_fit := Some p\<rparr> in
      case np_subtract p mbd of
        Inl e \<Rightarrow> (self3, Some e)
      | Inr d \<Rightarrow>
     (let self4 = self3\<lparr>distances_fit := Some d\<rparr> in
      case compute_maximum_inlier_distance self4 d of
        Inl e \<Rightarrow> (self4, Some e)
      | Inr t \<Rightarrow> (self4\<lparr>max_inlier_distance_fit := Some t\<rparr>, None))))))"

text \<open>
  \<open>fit_predict\<close>: \<open>outliers\<close> is a boolean array; \<open>~outliers + outliers * -1\<close> adds the
  negated booleans (read as 0/1) to the booleans multiplied by \<open>-1\<close>.
\<close>

definition int_of_bool :: "bool \<Rightarrow> int" where
  "int_of_bool b = (if b then 1 else 0)"

definition outliergram_fit_predict ::
  "(FDataGrid \<Rightarrow> error + real list) \<Rightarrow> (FDataGrid \<Rightarrow> error + real list) \<Rightarrow>
   OutliergramOutlierDetector \<Rightarrow> FDataGrid \<Rightarrow> OutliergramOutlierDetector \<times> (error + int list)" where
  "outliergram_fit_predict depth mei self X =
     (case outliergram_fit depth mei self X of
        (self', Some e) \<Rightarrow> (self', Inl e)
      | (self', None) \<Rightarrow>
          (case (distances_fit self', max_inlier_distance_fit self') of
             (Some d, Some t) \<Rightarrow>
               (let outliers = map (\<lambda>x. x > t) d;
                    predicted = map (\<lambda>out. int_of_bool (\<not> out) + int_of_bool out * (- 1)) outliers
                in (self', Inr predicted))
           | _ \<Rightarrow> (self', Inl AttributeError)))"

text \<open>The batch of the class docstring: grid \<open>[0, 2, 4, 6, 8, 10]\<close> and four functions.\<close>

definition example_fd :: FDataGrid where
  "example_fd =
     \<lparr>grid_points = [[0, 2, 4, 6, 8, 10]],
      data_matrix =
        [[[1], [1], [2], [3], [2.5], [2]],
         [[0.5], [0.5], [1], [2], [1.5], [1]],
         [[-1], [-1], [-0.5], [1], [1], [0.5]],
         [[-0.5], [-0.5], [-0.5], [-1], [-1], [-1]]],
      dim_codomain = 1\<rparr>"

text \<open>
  The relation of the specification, in its words: the parabola
  \<open>a0 + a1 * mei + N\<^sup>2 * a2 * mei\<^sup>2\<close> with \<open>a0 = a2 = -2 / (N (N - 1))\<close> and
  \<open>a1 = 2 (N + 1) / (N - 1)\<close>, the distance \<open>parabola(mei) - mbd\<close> of each function, and
  the label: \<open>-1\<close> when the distance exceeds the threshold, \<open>+1\<close> otherwise.
\<close>

definition parabola_spec :: "nat \<Rightarrow> real \<Rightarrow> real" where
  "parabola_spec N m =
     (let a0 = - 2 / (real N * (real N - 1));
          a1 = 2 * (real N + 1) / (real N - 1);
          a2 = a0
      in a0 + a1 * m + (real N)\<^sup>2 * a2 * m\<^sup>2)"

definition label_of :: "real \<Rightarrow> real \<Rightarrow> int" where
  "label_of threshold distance = (if distance > threshold then - 1 else 1)"

definition distances_spec :: "nat \<Rightarrow> real list \<Rightarrow> real list \<Rightarrow> real list" where
  "distances_spec N m mbd = map2 (\<lambda>mei_i mbd_i. parabola_spec N mei_i - mbd_i) m mbd"

section \<open>numpy values and array operations\<close>

text \<open>
  A floating-point value of numpy is a real number, an infinity or nan. Rounding, overflow
  and the sign of zero are not modelled (a zero divisor is read as \<open>+0\<close>); the special
  values are, because the code can produce them: the mean of an empty selection is nan,
  and a division by a zero standard deviation is an infinity or nan.
\<close>

datatype npfloat = Fin real | PInf | NInf | NaN

fun np_neg :: "npfloat \<Rightarrow> npfloat" where
  "np_neg (Fin a) = Fin (- a)"
| "np_neg PInf = NInf"
| "np_neg NInf = PInf"
| "np_neg NaN = NaN"

fun np_add :: "npfloat \<Rightarrow> npfloat \<Rightarrow> npfloat" where
  "np_add (Fin a) (Fin b) = Fin (a + b)"
| "np_add NaN y = NaN"
| "np_add x NaN = NaN"
| "np_add PInf NInf = NaN"
| "np_add NInf PInf = NaN"
| "np_add PInf y = PInf"
| "np_add x PInf = PInf"
| "np_add NInf y = NInf"
| "np_add x NInf = NInf"

definition np_sub :: "npfloat \<Rightarrow> npfloat \<Rightarrow> npfloat" where
  "np_sub x y = np_add x (np_neg y)"

definition signed_inf :: "bool \<Rightarrow> npfloat" where
  "signed_inf positive = (if positive then PInf else NInf)"

fun np_mul :: "npfloat \<Rightarrow> npfloat \<Rightarrow> npfloat" where
  "np_mul (Fin a) (Fin b) = Fin (a * b)"
| "np_mul NaN y = NaN"
| "np_mul x NaN = NaN"
| "np_mul (Fin a) PInf = (if a = 0 then NaN else signed_inf (0 < a))"
| "np_mul (Fin a) NInf = (if a = 0 then NaN else signed_inf (a < 0))"
| "np_mul PInf (Fin b) = (if b = 0 then NaN else signed_inf (0 < b))"
| "np_mul NInf (Fin b) = (if b = 0 then NaN else signed_inf (b < 0))"
| "np_mul PInf PInf = PInf"
| "np_mul PInf NInf = NInf"
| "np_mul NInf PInf = NInf"
| "np_mul NInf NInf = PInf"

fun np_div :: "npfloat \<Rightarrow> npfloat \<Rightarrow> npfloat" where
  "np_div (Fin a) (Fin b) =
     (if b = 0 then (if a = 0 then NaN else signed_inf (0 < a)) else Fin (a / b))"
| "np_div NaN y = NaN"
| "np_div x NaN = NaN"
| "np_div (Fin a) PInf = Fin 0"
| "np_div (Fin a) NInf = Fin 0"
| "np_div PInf (Fin b) = signed_inf (0 \<le> b)"
| "np_div NInf (Fin b) = signed_inf (b < 0)"
| "np_div PInf PInf = NaN"
| "np_div PInf NInf = NaN"
| "np_div NInf PInf = NaN"
| "np_div NInf NInf = NaN"

fun np_abs :: "npfloat \<Rightarrow> npfloat" where
  "np_abs (Fin a) = Fin \<bar>a\<bar>"
| "np_abs PInf = PInf"
| "np_abs NInf = PInf"
| "np_abs NaN = NaN"

fun np_sqrt :: "npfloat \<Rightarrow> npfloat" where
  "np_sqrt (Fin a) = (if a < 0 then NaN else Fin (sqrt a))"
| "np_sqrt PInf = PInf"
| "np_sqrt NInf = NaN"
| "np_sqrt NaN = NaN"

fun is_finite :: "npfloat \<Rightarrow> bool" where
  "is_finite (Fin a) = True"
| "is_finite x = False"

text \<open>\<open>x < y\<close> on floating-point values: false as soon as one side is nan.\<close>

fun np_less :: "npfloat \<Rightarrow> npfloat \<Rightarrow> bool" where
  "np_less (Fin a) (Fin b) = (a < b)"
| "np_less NaN y = False"
| "np_less x NaN = False"
| "np_less x NInf = False"
| "np_less PInf y = False"
| "np_less NInf y = True"
| "np_less x PInf = True"

text \<open>
  \<open>np.argmax\<close> scans from the left and moves to a later entry only when the entry is not
  \<open>\<le>\<close> the current maximum: a strictly larger one or the first nan, after which nothing
  replaces it. So ties go to the first occurrence and nan counts as the largest value. An
  empty array raises.
\<close>

definition replaces :: "npfloat \<Rightarrow> npfloat \<Rightarrow> bool" where
  "replaces x best = (if best = NaN then False else if x = NaN then True else np_less best x)"

fun argmax_scan :: "npfloat list \<Rightarrow> nat \<Rightarrow> npfloat \<Rightarrow> nat \<Rightarrow> nat" where
  "argmax_scan [] i best best_i = best_i"
| "argmax_scan (x # xs) i best best_i =
     (if replaces x best then argmax_scan xs (Suc i) x i
      else argmax_scan xs (Suc i) best best_i)"

definition np_argmax :: "npfloat list \<Rightarrow> error + nat" where
  "np_argmax a =
     (case a of
        [] \<Rightarrow> Inl (ValueError EmptySequence)
      | x # xs \<Rightarrow> Inr (argmax_scan xs 1 x 0))"

text \<open>\<open>np.delete(arr, k)\<close> for an index \<open>k \<ge> 0\<close>: out of range raises.\<close>

definition np_delete :: "'a list \<Rightarrow> nat \<Rightarrow> error + 'a list" where
  "np_delete arr k =
     (if k < length arr then Inr (take k arr @ drop (Suc k) arr) else Inl IndexError)"

text \<open>
  Indexing with a list of non-negative indices: \<open>a[sel]\<close> on a vector and
  \<open>a[sel[:, np.newaxis], sel]\<close> on a matrix (a list of rows). Any index out of range
  raises.
\<close>

definition shape1 :: "'a list list \<Rightarrow> nat" where
  "shape1 a = (case a of [] \<Rightarrow> 0 | r # rs \<Rightarrow> length r)"

definition take_indices :: "'a list \<Rightarrow> nat list \<Rightarrow> error + 'a list" where
  "take_indices a sel =
     (if list_all (\<lambda>i. i < length a) sel then Inr (map (\<lambda>i. a ! i) sel) else Inl IndexError)"

definition submatrix :: "'a list list \<Rightarrow> nat list \<Rightarrow> error + 'a list list" where
  "submatrix a sel =
     (if list_all (\<lambda>i. i < length a) sel \<and> list_all (\<lambda>j. list_all (\<lambda>r. j < length r) a) sel
      then Inr (map (\<lambda>i. map (\<lambda>j. a ! i ! j) sel) sel)
      else Inl IndexError)"

text \<open>The product of a row vector with a column vector, \<open>u @ v\<close>.\<close>

definition np_dot :: "npfloat list \<Rightarrow> npfloat list \<Rightarrow> error + npfloat" where
  "np_dot u v =
     (if length u = length v then Inr (foldr np_add (map2 np_mul u v) (Fin 0))
      else Inl (ValueError Broadcast))"

text \<open>
  Statistics along axis 0 of a matrix with \<open>P\<close> columns, given as its list of rows (an
  array without rows still has \<open>P\<close> columns, so \<open>P\<close> is passed along). \<open>np.mean\<close> of no
  rows is nan in every column.

  \<open>np.cov(m, rowvar=False, bias=True)\<close> reads each column as a variable and each row as an
  observation, and divides the sums by the number of rows; without rows every entry is
  nan. A matrix with exactly one row is the exception in numpy before version 2.0 (the
  versions that provide \<open>np.float_\<close>, which the selection loop uses): \<open>cov\<close> transposes its
  input only \<open>if not rowvar and X.shape[0] != 1\<close>, so the single row is read as one
  variable observed \<open>P\<close> times, and the result is the variance of its entries, which
  \<open>np.atleast_2d\<close> turns into a \<open>1 \<times> 1\<close> matrix.
\<close>

definition column :: "real list list \<Rightarrow> nat \<Rightarrow> real list" where
  "column rows t = map (\<lambda>r. r ! t) rows"

definition mean_real :: "real list \<Rightarrow> real" where
  "mean_real xs = sum_list xs / real (length xs)"

definition np_mean :: "real list \<Rightarrow> npfloat" where
  "np_mean xs = (if xs = [] then NaN else Fin (mean_real xs))"

definition mean_axis0 :: "nat \<Rightarrow> real list list \<Rightarrow> npfloat list" where
  "mean_axis0 P rows = map (\<lambda>t. np_mean (column rows t)) [0..<P]"

definition cov_entry :: "real list list \<Rightarrow> nat \<Rightarrow> nat \<Rightarrow> npfloat" where
  "cov_entry rows a b =
     (if rows = [] then NaN
      else Fin (sum_list (map (\<lambda>r. (r ! a - mean_real (column rows a)) *
                                    (r ! b - mean_real (column rows b))) rows)
                / real (length rows)))"

definition row_variance :: "real list \<Rightarrow> npfloat" where
  "row_variance r =
     (if r = [] then NaN else Fin (mean_real (map (\<lambda>x. (x - mean_real r)\<^sup>2) r)))"

definition np_cov :: "nat \<Rightarrow> real list list \<Rightarrow> npfloat list list" where
  "np_cov P rows =
     (case rows of
        [r] \<Rightarrow> [[row_variance r]]
      | _ \<Rightarrow> map (\<lambda>a. map (\<lambda>b. cov_entry rows a b) [0..<P]) [0..<P])"

text \<open>
  Elementwise operations with numpy's broadcasting, for the shapes that occur: a matrix
  against a matrix of the same shape or a \<open>1 \<times> 1\<close> matrix, and a vector against a vector
  of the same length or of length one. No other shapes reach these operations; the
  model raises on them.
\<close>

definition same_shape :: "'a list list \<Rightarrow> 'b list list \<Rightarrow> bool" where
  "same_shape a b = (map length a = map length b)"

definition broadcast_matrix ::
  "(npfloat \<Rightarrow> npfloat \<Rightarrow> npfloat) \<Rightarrow> npfloat list list \<Rightarrow> npfloat list list \<Rightarrow>
   error + npfloat list list" where
  "broadcast_matrix f a b =
     (if same_shape a b then Inr (map2 (map2 f) a b)
      else case a of
        [[x]] \<Rightarrow> Inr (map (map (f x)) b)
      | _ \<Rightarrow> (case b of
          [[y]] \<Rightarrow> Inr (map (map (\<lambda>x. f x y)) a)
        | _ \<Rightarrow> Inl (ValueError Broadcast)))"

definition broadcast_vector ::
  "(npfloat \<Rightarrow> npfloat \<Rightarrow> npfloat) \<Rightarrow> npfloat list \<Rightarrow> npfloat list \<Rightarrow> error + npfloat list" where
  "broadcast_vector f a b =
     (if length a = length b then Inr (map2 f a b)
      else case a of
        [x] \<Rightarrow> Inr (map (f x) b)
      | _ \<Rightarrow> (case b of
          [y] \<Rightarrow> Inr (map (\<lambda>x. f x y) a)
        | _ \<Rightarrow> Inl (ValueError Broadcast)))"

definition np_diag :: "'a list list \<Rightarrow> 'a list" where
  "np_diag a = map (\<lambda>t. a ! t ! t) [0..<min (length a) (shape1 a)]"

text \<open>\<open>X[Y.ravel() == c]\<close>: the rows of \<open>X\<close> whose label equals \<open>c\<close>.\<close>

definition rows_where :: "real list list \<Rightarrow> int list \<Rightarrow> int \<Rightarrow> real list list" where
  "rows_where X Y c = map fst (filter (\<lambda>(r, l). l = c) (zip X Y))"

section \<open>RKHS variable selection\<close>

text \<open>
  \<open>skfda/preprocessing/dim_reduction/variable_selection/_rkvs.py\<close>. A matrix is its list of
  rows, all of one length; the trajectories are real numbers (\<open>fit\<close> lets only finite
  values through) and the labels are integers. \<open>numpy.linalg.lstsq\<close> is a parameter
  \<open>lstsq\<close> of the model: given the matrix and the right-hand side it returns the solution
  vector, or \<open>None\<close> when numpy raises \<open>LinAlgError\<close>.
\<close>

type_synonym lstsq_solver = "npfloat list list \<Rightarrow> npfloat list \<Rightarrow> npfloat list option"

record selection =
  selected_features :: "nat list"
  score :: "npfloat list"
  indexes :: "nat list"

text \<open>
  The body of the inner loop for one candidate \<open>indexes[j]\<close>: the score
  \<open>new_means @ lstsq(variances[new_selection, new_selection], new_means.T)\<close>.
\<close>

definition candidate_score ::
  "lstsq_solver \<Rightarrow> npfloat list \<Rightarrow> npfloat list list \<Rightarrow> nat list \<Rightarrow> nat \<Rightarrow> error + npfloat" where
  "candidate_score lstsq means variances selected c =
     (let new_selection = selected @ [c] in
      case take_indices means new_selection of
        Inl e \<Rightarrow> Inl e
      | Inr new_means \<Rightarrow>
     (case submatrix variances new_selection of
        Inl e \<Rightarrow> Inl e
      | Inr k \<Rightarrow>
     (case lstsq k new_means of
        None \<Rightarrow> Inl LinAlgError
      | Some lstsq_solution \<Rightarrow> np_dot new_means lstsq_solution)))"

text \<open>The inner loop fills \<open>aux\<close> from left to right and stops at the first exception.\<close>

fun fill_aux :: "(nat \<Rightarrow> error + npfloat) \<Rightarrow> nat list \<Rightarrow> error + npfloat list" where
  "fill_aux f [] = Inr []"
| "fill_aux f (c # cs) =
     (case f c of
        Inl e \<Rightarrow> Inl e
      | Inr v \<Rightarrow> (case fill_aux f cs of Inl e \<Rightarrow> Inl e | Inr vs \<Rightarrow> Inr (v # vs)))"

text \<open>One round \<open>i\<close> of the outer loop.\<close>

definition select_step ::
  "lstsq_solver \<Rightarrow> npfloat list \<Rightarrow> npfloat list list \<Rightarrow> nat \<Rightarrow> selection \<Rightarrow> error + selection" where
  "select_step lstsq means variances i st =
     (case fill_aux (candidate_score lstsq means variances (take i (selected_features st)))
             (indexes st) of
        Inl e \<Rightarrow> Inl e
      | Inr aux \<Rightarrow>
     (case np_argmax aux of
        Inl e \<Rightarrow> Inl e
      | Inr aux2 \<Rightarrow>
          if aux2 < length (indexes st) \<and> i < length (selected_features st) \<and>
             i < length (score st) \<and> aux2 < length aux
          then
            (case np_delete (indexes st) aux2 of
               Inl e \<Rightarrow> Inl e
             | Inr indexes' \<Rightarrow>
                 Inr \<lparr>selected_features = (selected_features st)[i := indexes st ! aux2],
                      score = (score st)[i := aux ! aux2],
                      indexes = indexes'\<rparr>)
          else Inl IndexError))"

fun select_loop ::
  "lstsq_solver \<Rightarrow> npfloat list \<Rightarrow> npfloat list list \<Rightarrow> nat list \<Rightarrow> selection \<Rightarrow> error + selection" where
  "select_loop lstsq means variances [] st = Inr st"
| "select_loop lstsq means variances (i # rest) st =
     (case select_step lstsq means variances i st of
        Inl e \<Rightarrow> Inl e
      | Inr st' \<Rightarrow> select_loop lstsq means variances rest st')"

text \<open>
  The quantities computed before the selection starts. \<open>class_1_count\<close> is \<open>sum(Y)\<close>, the
  sum of the labels.
\<close>

definition class_means :: "real list list \<Rightarrow> int list \<Rightarrow> npfloat list" where
  "class_means X Y =
     map2 np_sub (mean_axis0 (shape1 X) (rows_where X Y 1))
                 (mean_axis0 (shape1 X) (rows_where X Y 0))"

definition pooled_variances ::
  "real list list \<Rightarrow> int list \<Rightarrow> real \<Rightarrow> real \<Rightarrow> error + npfloat list list" where
  "pooled_variances X Y class_1_proportion class_0_proportion =
     broadcast_matrix np_add
       (map (map (np_mul (Fin class_1_proportion))) (np_cov (shape1 X) (rows_where X Y 1)))
       (map (map (np_mul (Fin class_0_proportion))) (np_cov (shape1 X) (rows_where X Y 0)))"

definition mu_sigma :: "npfloat list \<Rightarrow> npfloat list list \<Rightarrow> error + npfloat list" where
  "mu_sigma means variances =
     broadcast_vector np_div (map np_abs means) (map np_sqrt (np_diag variances))"

text \<open>
  \<open>_rkhs_vs(X, Y, n_components)\<close>. The two assertions come first. The boolean masks
  \<open>Y.ravel() == 1\<close> and \<open>Y.ravel() == 0\<close> must have one entry per row of \<open>X\<close>.
\<close>

definition rkhs_vs ::
  "lstsq_solver \<Rightarrow> real list list \<Rightarrow> int list \<Rightarrow> int \<Rightarrow> error + (nat list \<times> npfloat list)" where
  "rkhs_vs lstsq X Y n_components =
     (if 1 \<le> n_components then
        if n_components \<le> int (shape1 X) then
          (let selected_features0 = replicate (nat n_components) (0::nat);
               score0 = replicate (nat n_components) (Fin 0);
               indexes0 = [0..<shape1 X]
           in
           if length Y = length X then
             (let means = class_means X Y;
                  class_1_count = sum_list Y;
                  class_0_count = int (length Y) - class_1_count
              in
              case py_truediv (real_of_int class_1_count) (real (length Y)) of
                Inl e \<Rightarrow> Inl e
              | Inr class_1_proportion \<Rightarrow>
             (case py_truediv (real_of_int class_0_count) (real (length Y)) of
                Inl e \<Rightarrow> Inl e
              | Inr class_0_proportion \<Rightarrow>
             (case pooled_variances X Y class_1_proportion class_0_proportion of
                Inl e \<Rightarrow> Inl e
              | Inr variances \<Rightarrow>
             (case mu_sigma means variances of
                Inl e \<Rightarrow> Inl e
              | Inr ms \<Rightarrow>
             (case np_argmax ms of
                Inl e \<Rightarrow> Inl e
              | Inr first \<Rightarrow>
                  if first < length ms then
                    (case np_delete indexes0 first of
                       Inl e \<Rightarrow> Inl e
                     | Inr indexes1 \<Rightarrow>
                    (case select_loop lstsq means variances [1..<nat n_components]
                            \<lparr>selected_features = selected_features0[0 := first],
                             score = score0[0 := ms ! first],
                             indexes = indexes1\<rparr> of
                       Inl e \<Rightarrow> Inl e
                     | Inr st \<Rightarrow> Inr (selected_features st, score st)))
                  else Inl IndexError)))))
           else Inl IndexError)
        else Inl AssertionError
      else Inl AssertionError)"

text \<open>
  The estimator. \<open>_features_shape_\<close>, \<open>_features_\<close> and \<open>_scores_\<close> are the fields
  \<open>features_shape_fit\<close>, \<open>features_fit\<close> and \<open>scores_fit\<close>, \<open>None\<close> while the attribute does
  not exist.
\<close>

record RKHSVariableSelection =
  n_components :: int
  features_shape_fit :: "nat list option"
  features_fit :: "nat list option"
  scores_fit :: "npfloat list option"

text \<open>\<open>__init__(self, n_components=1)\<close>.\<close>

definition RKHSVariableSelection_init :: "int \<Rightarrow> RKHSVariableSelection" where
  "RKHSVariableSelection_init n =
     \<lparr>n_components = n, features_shape_fit = None, features_fit = None, scores_fit = None\<rparr>"

text \<open>
  \<open>X.data_matrix[..., 0]\<close>: the first codomain coordinate at every sample and grid point;
  a missing coordinate raises.
\<close>

definition coordinate0 :: "real list list list \<Rightarrow> error + real list list" where
  "coordinate0 m =
     (if list_all (list_all (\<lambda>v. v \<noteq> [])) m then Inr (map (map hd) m) else Inl IndexError)"

definition rectangular :: "'a list list \<Rightarrow> bool" where
  "rectangular a = list_all (\<lambda>r. length r = shape1 a) a"

text \<open>
  sklearn's \<open>check_X_y\<close> and \<open>check_array\<close> with their default arguments, on values that
  are finite numbers already: the matrix needs at least one sample and one feature, and
  the labels one entry per sample; otherwise a \<open>ValueError\<close> is raised. The matrix being an
  array (every row of one length) is part of the check in a list-of-rows model.
\<close>

definition check_array :: "real list list \<Rightarrow> error + real list list" where
  "check_array X =
     (if 1 \<le> length X \<and> 1 \<le> shape1 X \<and> rectangular X then Inr X
      else Inl (ValueError CheckXy))"

definition check_X_y :: "real list list \<Rightarrow> int list \<Rightarrow> error + (real list list \<times> int list)" where
  "check_X_y X y =
     (case check_array X of
        Inl e \<Rightarrow> Inl e
      | Inr X' \<Rightarrow> if length y = length X' then Inr (X', y) else Inl (ValueError CheckXy))"

text \<open>
  \<open>fit\<close>: \<open>len(np.unique(y))\<close> is the number of distinct labels. The object is returned
  as the method leaves it: \<open>_features_shape_\<close> is assigned before \<open>_rkhs_vs\<close> runs.
\<close>

definition rkvs_fit ::
  "lstsq_solver \<Rightarrow> RKHSVariableSelection \<Rightarrow> FDataGrid \<Rightarrow> int list \<Rightarrow>
   RKHSVariableSelection \<times> error option" where
  "rkvs_fit lstsq self X y =
     (let n_unique_labels = card (set y) in
      if n_unique_labels = 2 then
        if dim_domain X = 1 then
          if dim_codomain X = 1 then
            (case coordinate0 (data_matrix X) of
               Inl e \<Rightarrow> (self, Some e)
             | Inr m \<Rightarrow>
            (case check_X_y m y of
               Inl e \<Rightarrow> (self, Some e)
             | Inr (X', y') \<Rightarrow>
            (let self1 = self\<lparr>features_shape_fit := Some [shape1 X']\<rparr> in
             case rkhs_vs lstsq X' y' (n_components self1) of
               Inl e \<Rightarrow> (self1, Some e)
             | Inr (features, scores) \<Rightarrow>
                 (self1\<lparr>features_fit := Some features, scores_fit := Some scores\<rparr>, None))))
          else (self, Some (ValueError DomainCodomain))
        else (self, Some (ValueError DomainCodomain))
      else (self, Some (ValueError (TwoLabels n_unique_labels))))"

text \<open>
  sklearn's \<open>check_is_fitted(self)\<close>: the estimator counts as fitted when it has an
  attribute whose name ends with an underscore (and does not start with two).
\<close>

definition rkvs_is_fitted :: "RKHSVariableSelection \<Rightarrow> bool" where
  "rkvs_is_fitted self =
     (if features_shape_fit self = None then
        if features_fit self = None then (if scores_fit self = None then False else True)
        else True
      else True)"

text \<open>\<open>transform\<close>: \<open>X_matrix[:, self._features_]\<close> picks the fitted columns in every row.\<close>

definition rkvs_transform :: "RKHSVariableSelection \<Rightarrow> FDataGrid \<Rightarrow> error + real list list" where
  "rkvs_transform self X =
     (if rkvs_is_fitted self then
        (case coordinate0 (data_matrix X) of
           Inl e \<Rightarrow> Inl e
         | Inr m \<Rightarrow>
        (case check_array m of
           Inl e \<Rightarrow> Inl e
         | Inr X_matrix \<Rightarrow>
        (case features_shape_fit self of
           None \<Rightarrow> Inl AttributeError
         | Some shape \<Rightarrow>
             if [shape1 X_matrix] = shape then
               (case features_fit self of
                  None \<Rightarrow> Inl AttributeError
                | Some features \<Rightarrow>
                    if list_all (\<lambda>i. i < shape1 X_matrix) features
                    then Inr (map (\<lambda>r. map (\<lambda>i. r ! i) features) X_matrix)
                    else Inl IndexError)
             else Inl (ValueError DifferentPoints))))
      else Inl NotFittedError)"

text \<open>
  The first point in the words of the specification, for any two labels \<open>a < b\<close>: the
  first index that maximises \<open>|mean_diff(t)| / sqrt(variance(t))\<close>, where \<open>mean_diff\<close> is
  the difference of the class-conditional means and \<open>variance\<close> the diagonal of the
  covariance pooled with the class proportions as weights.
\<close>

definition class_variance :: "real list list \<Rightarrow> nat \<Rightarrow> real" where
  "class_variance rows t =
     mean_real (map (\<lambda>x. (x - mean_real (column rows t))\<^sup>2) (column rows t))"

definition spec_mean_diff :: "real list list \<Rightarrow> int list \<Rightarrow> nat \<Rightarrow> real" where
  "spec_mean_diff X Y t =
     mean_real (column (rows_where X Y (Max (set Y))) t)
     - mean_real (column (rows_where X Y (Min (set Y))) t)"

definition spec_variance :: "real list list \<Rightarrow> int list \<Rightarrow> nat \<Rightarrow> real" where
  "spec_variance X Y t =
     (let rows_a = rows_where X Y (Min (set Y)); rows_b = rows_where X Y (Max (set Y))
      in real (length rows_b) / real (length Y) * class_variance rows_b t
       + real (length rows_a) / real (length Y) * class_variance rows_a t)"

definition spec_score :: "real list list \<Rightarrow> int list \<Rightarrow> nat \<Rightarrow> real" where
  "spec_score X Y t = \<bar>spec_mean_diff X Y t\<bar> / sqrt (spec_variance X Y t)"

fun first_argmax :: "(nat \<Rightarrow> real) \<Rightarrow> nat \<Rightarrow> nat" where
  "first_argmax f 0 = 0"
| "first_argmax f (Suc n) = (if f (first_argmax f n) < f (Suc n) then Suc n else first_argmax f n)"

definition spec_first_point :: "real list list \<Rightarrow> int list \<Rightarrow> nat" where
  "spec_first_point X Y = first_argmax (spec_score X Y) (shape1 X - 1)"

text \<open>
  Notions used in the proofs about the selection: a \<open>P \<times> P\<close> matrix; the exceptions the
  solver step can raise; and the loop invariant of \<open>_rkhs_vs\<close> at the start of round \<open>i\<close>:
  the first \<open>i\<close> selected features together with the remaining \<open>indexes\<close> are the points
  \<open>0, \<dots>, P - 1\<close>, each exactly once.
\<close>

definition square :: "nat \<Rightarrow> 'a list list \<Rightarrow> bool" where
  "square P a = (length a = P \<and> list_all (\<lambda>r. length r = P) a)"

definition entries :: "'a list list \<Rightarrow> 'a set" where
  "entries a = (\<Union>r \<in> set a. set r)"

definition solver_errors :: "error set" where
  "solver_errors = {LinAlgError, ValueError Broadcast}"

definition sel_inv :: "nat \<Rightarrow> nat \<Rightarrow> nat \<Rightarrow> selection \<Rightarrow> bool" where
  "sel_inv P n i st =
     (length (selected_features st) = n \<and> length (score st) = n \<and> i \<le> n \<and>
      mset (take i (selected_features st)) + mset (indexes st) = mset [0..<P])"

text \<open>
  A small two-class input used to instantiate the theorems: four trajectories on two
  domain points, as a matrix and as an \<open>FDataGrid\<close>, and a solver that always returns.
\<close>

definition example_X :: "real list list" where
  "example_X = [[0, 0], [1, 1], [0, 5], [1, 6]]"

definition example_grid :: FDataGrid where
  "example_grid =
     \<lparr>grid_points = [[0, 1]],
      data_matrix = [[[0], [0]], [[1], [1]], [[0], [5]], [[1], [6]]],
      dim_codomain = 1\<rparr>"

definition echo_solver :: lstsq_solver where
  "echo_solver A b = Some b"

text \<open>
  \<open>numpy.linalg.lstsq\<close> raises \<open>LinAlgError\<close> ("SVD did not converge in Linear Least
  Squares") on a system with a nan entry. A solver that does so; what it returns on a
  finite system plays no role where it is used.
\<close>

definition finite_only_solver :: lstsq_solver where
  "finite_only_solver A b =
     (if list_all (list_all is_finite) A \<and> list_all is_finite b then Some b else None)"

text \<open>Two trajectories on two domain points, one per class.\<close>

definition two_trajectories :: "real list list" where
  "two_trajectories = [[0, 4], [1, 5]]"

definition two_trajectories_grid :: FDataGrid where
  "two_trajectories_grid =
     \<lparr>grid_points = [[0, 1]], data_matrix = [[[0], [4]], [[1], [5]]], dim_codomain = 1\<rparr>"

text \<open>The exceptions that can leave \<open>_rkhs_vs\<close>.\<close>

definition raised_by_rkhs_vs :: "error set" where
  "raised_by_rkhs_vs =
     {AssertionError, IndexError, ZeroDivisionError, LinAlgError,
      ValueError Broadcast, ValueError EmptySequence}"

section \<open>Basis smoother\<close>

text \<open>
  \<open>skfda/preprocessing/smoothing/_basis.py\<close>. The smoothing itself lives in other modules
  of the package (\<open>_LinearSmoother\<close>, the basis, \<open>solve_regularized_weighted_lstsq\<close>):
  \<open>super().fit\<close>, the coefficient branch of \<open>transform\<close> and \<open>super().transform\<close> are parameters
  of the model. Of the constructor arguments the record keeps those the modelled code
  reads.
\<close>

record BasisSmoother =
  output_points :: "real list list option"
  return_basis :: bool
  input_points_fit :: "real list list option"
  output_points_fit :: "real list list option"

text \<open>\<open>__init__\<close> with \<open>output_points=None\<close> and \<open>return_basis=False\<close> as defaults.\<close>

definition BasisSmoother_init :: "real list list option \<Rightarrow> bool \<Rightarrow> BasisSmoother" where
  "BasisSmoother_init out_points ret_basis =
     \<lparr>output_points = out_points, return_basis = ret_basis,
      input_points_fit = None, output_points_fit = None\<rparr>"

text \<open>
  \<open>_input_points(fd)\<close>: the grid points of an \<open>FDataGrid\<close> (one array per domain dimension),
  the array \<open>points\<close> of an \<open>FDataIrregular\<close> (one row per observation point).
\<close>

definition input_points :: "FData \<Rightarrow> error + real list list" where
  "input_points fd =
     (case fd of
        Grid g \<Rightarrow> Inr (grid_points g)
      | Irregular f \<Rightarrow> Inr (points f)
      | Basis b \<Rightarrow> Inl (ValueError NotGridOrIrregular))"

type_synonym smoother_fit = "BasisSmoother \<Rightarrow> FData \<Rightarrow> BasisSmoother \<times> error option"

type_synonym smoother_transform = "BasisSmoother \<Rightarrow> FData \<Rightarrow> error + FData"

text \<open>\<open>fit\<close>; \<open>_to_grid_points\<close> leaves a tuple of arrays as it is.\<close>

definition basis_fit :: "smoother_fit \<Rightarrow> BasisSmoother \<Rightarrow> FData \<Rightarrow> BasisSmoother \<times> error option" where
  "basis_fit super_fit self X =
     (case input_points X of
        Inl e \<Rightarrow> (self, Some e)
      | Inr pts \<Rightarrow>
          (let self1 = self\<lparr>input_points_fit := Some pts\<rparr>;
               self2 = self1\<lparr>output_points_fit :=
                         Some (case output_points self1 of Some out \<Rightarrow> out | None \<Rightarrow> pts)\<rparr>
           in if return_basis self2 then (self2, None) else super_fit self2 X))"

text \<open>
  The asserted expression of \<open>transform\<close>:
  \<open>all(np.array_equal(i, s) for i, s in zip(self.input_points_, _input_points(X)))\<close>.
  \<open>zip\<close> pairs the two sequences up to the shorter one; \<open>np.array_equal\<close> on two arrays of
  real numbers is equality of shape and entries.
\<close>

definition points_equal :: "real list list \<Rightarrow> real list list \<Rightarrow> bool" where
  "points_equal fitted given = list_all (\<lambda>(i, s). i = s) (zip fitted given)"

text \<open>
  \<open>transform\<close>: reading \<open>self.input_points_\<close> on an object that was never fitted raises
  \<open>AttributeError\<close>; there is no \<open>check_is_fitted\<close> call.
\<close>

definition basis_transform ::
  "smoother_transform \<Rightarrow> smoother_transform \<Rightarrow> BasisSmoother \<Rightarrow> FData \<Rightarrow> error + FData" where
  "basis_transform coef_transform super_transform self X =
     (case input_points_fit self of
        None \<Rightarrow> Inl AttributeError
      | Some fitted \<Rightarrow>
     (case input_points X of
        Inl e \<Rightarrow> Inl e
      | Inr given \<Rightarrow>
          if points_equal fitted given then
            (if return_basis self then coef_transform self X else super_transform self X)
          else Inl AssertionError))"

text \<open>
  Inputs for the theorems: a stand-in for the smoothing branches that returns its input,
  an irregular data set observed at the points 0 and 0.5, a second one observed at 0, 0.5
  and 1, and grids on a one- and a two-dimensional domain.
\<close>

definition return_input :: smoother_transform where
  "return_input self X = Inr X"

definition no_super_fit :: smoother_fit where
  "no_super_fit self X = (self, None)"

definition irregular_2 :: FData where
  "irregular_2 = Irregular \<lparr>points = [[0], [0.5]], values_irr = [[1], [2]]\<rparr>"

definition irregular_3 :: FData where
  "irregular_3 = Irregular \<lparr>points = [[0], [0.5], [1]], values_irr = [[1], [2], [3]]\<rparr>"

definition grid_1d :: FData where
  "grid_1d = Grid \<lparr>grid_points = [[0, 1]], data_matrix = [[[3], [4]]], dim_codomain = 1\<rparr>"

definition grid_2d :: FData where
  "grid_2d =
     Grid \<lparr>grid_points = [[0, 1], [5, 6]], data_matrix = [[[1], [2]]], dim_codomain = 1\<rparr>"

section \<open>Methods of the outlier detector\<close>

text \<open>
  The methods an \<open>OutliergramOutlierDetector\<close> instance answers to: those of the class body
  and those inherited from sklearn's \<open>BaseEstimator\<close> and \<open>OutlierMixin\<close> (whose
  \<open>fit_predict\<close> the class overrides). Looking up any other name on the instance raises
  \<open>AttributeError\<close>.
\<close>

definition outliergram_methods :: "string list" where
  "outliergram_methods =
     [''__init__'', ''_compute_parabola'', ''_compute_maximum_inlier_distance'', ''fit'',
      ''fit_predict'', ''get_params'', ''set_params'']"

definition outliergram_lookup :: "string \<Rightarrow> error + string" where
  "outliergram_lookup name =
     (if name \<in> set outliergram_methods then Inr name else Inl AttributeError)"

section \<open>Outliergram: proofs\<close>

lemma predicted_label: "int_of_bool (\<not> b) + int_of_bool b * (- 1) = (if b then - 1 else 1)"
  by (simp add: int_of_bool_def)

lemma compute_parabola_ok:
  assumes "2 \<le> n_samples X" and "mei_fit self = Some m"
  shows "compute_parabola self X = Inr (map (parabola_spec (n_samples X)) m)"
proof -
  have n: "real (n_samples X) \<noteq> 0" "real (n_samples X) \<noteq> 1" "int (n_samples X) \<noteq> 1"
    using assms(1) by auto
  show ?thesis
    using n assms(2)
    by (simp add: compute_parabola_def py_truediv_def parabola_spec_def Let_def)
qed

lemma percentile_nonempty:
  assumes "a \<noteq> []" and "0 \<le> q" and "q \<le> 100"
  shows "\<exists>v. percentile a q = Inr v"
proof -
  have "sort a \<noteq> []"
    using assms(1) by (metis length_sort length_0_conv)
  then show ?thesis
    using assms(2,3) by (simp add: percentile_def Let_def)
qed

lemma outliergram_fit_run:
  assumes N: "2 \<le> n_samples X"
    and d: "depth X = Inr mbd" and m: "mei X = Inr m"
    and lm: "length mbd = n_samples X" and le: "length m = n_samples X"
    and q1: "percentile (map2 (-) (map (parabola_spec (n_samples X)) m) mbd) 25 = Inr q1"
    and q3: "percentile (map2 (-) (map (parabola_spec (n_samples X)) m) mbd) 75 = Inr q3"
  shows "outliergram_fit depth mei self X =
           (self\<lparr>mbd_fit := Some mbd, mei_fit := Some m,
                 parabola_fit := Some (map (parabola_spec (n_samples X)) m),
                 distances_fit := Some (map2 (-) (map (parabola_spec (n_samples X)) m) mbd),
                 max_inlier_distance_fit := Some (q3 + factor self * (q3 - q1))\<rparr>, None)"
proof -
  have p: "compute_parabola (self\<lparr>mbd_fit := Some mbd, mei_fit := Some m\<rparr>) X
             = Inr (map (parabola_spec (n_samples X)) m)"
    by (rule compute_parabola_ok[OF N]) simp
  have s: "np_subtract (map (parabola_spec (n_samples X)) m) mbd
             = Inr (map2 (-) (map (parabola_spec (n_samples X)) m) mbd)"
    using lm le by (simp add: np_subtract_def)
  show ?thesis
    by (simp add: outliergram_fit_def d m p s q1 q3 compute_maximum_inlier_distance_def Let_def)
qed

lemma predicted_map:
  "map (\<lambda>out. int_of_bool (\<not> out) + int_of_bool out * (- 1)) (map (\<lambda>x. x > t) d)
     = map (label_of t) d"
  by (simp add: label_of_def int_of_bool_def)

lemma outliergram_fit_None_inv:
  assumes "outliergram_fit depth mei self X = (s', None)"
  shows "\<exists>d q1 q3. distances_fit s' = Some d \<and>
           max_inlier_distance_fit s' = Some (q3 + factor self * (q3 - q1)) \<and>
           percentile d 25 = Inr q1 \<and> percentile d 75 = Inr q3"
  using assms
  unfolding outliergram_fit_def compute_maximum_inlier_distance_def
  by (auto simp: Let_def split: sum.splits)

lemma fit_predict_Inr_inv:
  assumes "snd (outliergram_fit_predict depth mei self X) = Inr labels"
  shows "\<exists>d q1 q3. percentile d 25 = Inr q1 \<and> percentile d 75 = Inr q3 \<and>
           labels = map (label_of (q3 + factor self * (q3 - q1))) d"
proof -
  obtain s' e where f: "outliergram_fit depth mei self X = (s', e)"
    by fastforce
  have e: "e = None"
    using assms f by (cases e) (simp_all add: outliergram_fit_predict_def)
  from outliergram_fit_None_inv[OF f[unfolded e]] obtain d q1 q3 where
    h: "distances_fit s' = Some d"
       "max_inlier_distance_fit s' = Some (q3 + factor self * (q3 - q1))"
       "percentile d 25 = Inr q1" "percentile d 75 = Inr q3"
    by blast
  have "snd (outliergram_fit_predict depth mei self X)
          = Inr (map (label_of (q3 + factor self * (q3 - q1))) d)"
    unfolding outliergram_fit_predict_def f e
    by (simp add: h Let_def label_of_def int_of_bool_def)
  with assms h show ?thesis by auto
qed

text \<open>
  Four values: the quartiles in closed form, and the count of values above the threshold.
\<close>

lemma length4_cases:
  assumes "length (xs::'a list) = 4"
  shows "\<exists>a b c e. xs = [a, b, c, e]"
  using assms by (auto simp: length_Suc_conv numeral_eq_Suc)

lemma sort4:
  assumes "length (d::real list) = 4"
  obtains s0 s1 s2 s3 where "sort d = [s0, s1, s2, s3]" "s0 \<le> s1" "s1 \<le> s2" "s2 \<le> s3"
proof -
  have l: "length (sort d) = 4" using assms by simp
  from length4_cases[OF l] obtain s0 s1 s2 s3 where s: "sort d = [s0, s1, s2, s3]"
    by blast
  have "sorted (sort d)" by simp
  then have "s0 \<le> s1" "s1 \<le> s2" "s2 \<le> s3" unfolding s by auto
  with s that show ?thesis by blast
qed

lemma percentiles4:
  assumes s: "sort d = [s0, s1, s2, s3]"
  shows "percentile d 25 = Inr (s0 + 3/4 * (s1 - s0))"
    and "percentile d 75 = Inr (s2 + 1/4 * (s3 - s2))"
proof -
  have f1: "\<lfloor>(3::real) * (25 / 100)\<rfloor> = 0" by simp
  have f3: "\<lfloor>(3::real) * (75 / 100)\<rfloor> = 2" by simp
  show "percentile d 25 = Inr (s0 + 3/4 * (s1 - s0))"
    by (simp add: percentile_def s Let_def)
  show "percentile d 75 = Inr (s2 + 1/4 * (s3 - s2))"
    by (simp add: percentile_def s Let_def)
qed

lemma at_most_one_outlier4:
  assumes l: "length d = 4" and f: "0 \<le> f"
    and q1: "percentile d 25 = Inr q1" and q3: "percentile d 75 = Inr q3"
  shows "length (filter (\<lambda>x. x > q3 + f * (q3 - q1)) d) \<le> 1"
proof -
  obtain s0 s1 s2 s3 where s: "sort d = [s0, s1, s2, s3]" and o: "s0 \<le> s1" "s1 \<le> s2" "s2 \<le> s3"
    using sort4[OF l] by blast
  have e1: "q1 = s0 + 3/4 * (s1 - s0)" and e3: "q3 = s2 + 1/4 * (s3 - s2)"
    using percentiles4[OF s] q1 q3 by simp_all
  have "q1 \<le> s1" using o e1 by (simp add: field_simps)
  moreover have q: "s2 \<le> q3" using o e3 by (simp add: field_simps)
  ultimately have "q1 \<le> q3" using o by linarith
  then have "0 \<le> f * (q3 - q1)" using f by simp
  then have t: "s2 \<le> q3 + f * (q3 - q1)" using q by linarith
  let ?P = "\<lambda>x. x > q3 + f * (q3 - q1)"
  have "length (filter ?P d) = size (filter_mset ?P (mset d))"
    by (simp flip: mset_filter)
  also have "\<dots> = size (filter_mset ?P (mset (sort d)))" by simp
  also have "\<dots> = length (filter ?P (sort d))"
    by (simp only: flip: mset_filter size_mset)
  also have "\<dots> \<le> 1" using t o unfolding s by simp
  finally show ?thesis .
qed

lemma distances_spec_eq:
  "map2 (-) (map (parabola_spec N) m) mbd = distances_spec N m mbd"
  by (simp add: distances_spec_def zip_map1 case_prod_unfold)

lemma outliergram_fit_predict_run:
  assumes f: "outliergram_fit depth mei self X = (self', None)"
    and d: "distances_fit self' = Some d" and t: "max_inlier_distance_fit self' = Some t"
  shows "outliergram_fit_predict depth mei self X = (self', Inr (map (label_of t) d))"
  by (simp add: outliergram_fit_predict_def f d t Let_def label_of_def int_of_bool_def)

lemma label_of_count:
  "length (filter (\<lambda>l. l = - 1) (map (label_of t) d)) = length (filter (\<lambda>x. x > t) d)"
  by (induction d) (simp_all add: label_of_def)

lemma label_of_range: "set (map (label_of t) d) \<subseteq> {- 1, 1}"
  by (auto simp: label_of_def)

text \<open>
  Claim C2. For every batch \<open>X\<close> of \<open>N \<ge> 2\<close> functions on which the depth returns \<open>mbd\<close> and
  the modified epigraph index returns \<open>m\<close> (one value per function each), \<open>fit\<close> ends
  without an exception and stores \<open>mbd\<close>, \<open>m\<close>, the parabola
  \<open>a0 + a1 * m + N\<^sup>2 * a2 * m\<^sup>2\<close> with \<open>a0 = a2 = -2 / (N (N - 1))\<close> and
  \<open>a1 = 2 (N + 1) / (N - 1)\<close>, the distances \<open>parabola - mbd\<close>, and the threshold
  \<open>Q3 + factor * (Q3 - Q1)\<close> of the distances; \<open>fit_predict\<close> then returns, for each
  function, \<open>-1\<close> exactly when its distance exceeds the threshold and \<open>+1\<close> otherwise.
  The default \<open>factor\<close> is 1.5.
\<close>

theorem C2_fit:
  assumes "2 \<le> n_samples X"
    and "depth X = Inr mbd" and "mei X = Inr m"
    and "length mbd = n_samples X" and "length m = n_samples X"
  shows "\<exists>q1 q3 self'.
           percentile (distances_spec (n_samples X) m mbd) 25 = Inr q1 \<and>
           percentile (distances_spec (n_samples X) m mbd) 75 = Inr q3 \<and>
           outliergram_fit depth mei self X = (self', None) \<and>
           mbd_fit self' = Some mbd \<and> mei_fit self' = Some m \<and>
           parabola_fit self' = Some (map (parabola_spec (n_samples X)) m) \<and>
           distances_fit self' = Some (distances_spec (n_samples X) m mbd) \<and>
           max_inlier_distance_fit self' = Some (q3 + factor self * (q3 - q1)) \<and>
           outliergram_fit_predict depth mei self X =
             (self', Inr (map (label_of (q3 + factor self * (q3 - q1)))
                            (distances_spec (n_samples X) m mbd))) \<and>
           factor (OutliergramOutlierDetector_init default_factor) = 1.5"
proof -
  let ?d = "distances_spec (n_samples X) m mbd"
  have "length ?d = n_samples X"
    using assms(4,5) by (simp add: distances_spec_def)
  then have ne: "?d \<noteq> []" using assms(1) by auto
  obtain q1 where q1: "percentile ?d 25 = Inr q1"
    using percentile_nonempty[OF ne, of 25] by auto
  obtain q3 where q3: "percentile ?d 75 = Inr q3"
    using percentile_nonempty[OF ne, of 75] by auto
  let ?s = "self\<lparr>mbd_fit := Some mbd, mei_fit := Some m,
                 parabola_fit := Some (map (parabola_spec (n_samples X)) m),
                 distances_fit := Some ?d,
                 max_inlier_distance_fit := Some (q3 + factor self * (q3 - q1))\<rparr>"
  have f: "outliergram_fit depth mei self X = (?s, None)"
    using outliergram_fit_run[where depth=depth and mei=mei and X=X and self=self
        and mbd=mbd and m=m and ?q1.0=q1 and ?q3.0=q3] assms q1 q3
    by (simp add: distances_spec_eq)
  have p: "outliergram_fit_predict depth mei self X =
             (?s, Inr (map (label_of (q3 + factor self * (q3 - q1))) ?d))"
    by (rule outliergram_fit_predict_run[OF f]) simp_all
  have "factor (OutliergramOutlierDetector_init default_factor) = 1.5"
    by (simp add: OutliergramOutlierDetector_init_def default_factor_def)
  with q1 q3 f p show ?thesis by simp
qed

text \<open>
  The hypotheses of C2 hold on the docstring batch with concrete depth and index values.
\<close>

theorem C2_fit_witness:
  "2 \<le> n_samples example_fd \<and>
   (\<exists>self'. outliergram_fit (\<lambda>X. Inr [1/2, 5/6, 11/15, 2/3]) (\<lambda>X. Inr [1/4, 1/2, 7/8, 37/40])
              (OutliergramOutlierDetector_init default_factor) example_fd = (self', None) \<and>
            mbd_fit self' = Some [1/2, 5/6, 11/15, 2/3] \<and>
            parabola_fit self' = Some (map (parabola_spec 4) [1/4, 1/2, 7/8, 37/40]))"
proof -
  have n: "n_samples example_fd = 4" by (simp add: n_samples_def example_fd_def)
  show ?thesis
    using C2_fit[of example_fd "\<lambda>X. Inr [1/2, 5/6, 11/15, 2/3]" "[1/2, 5/6, 11/15, 2/3]"
        "\<lambda>X. Inr [1/4, 1/2, 7/8, 37/40]" "[1/4, 1/2, 7/8, 37/40]"
        "OutliergramOutlierDetector_init default_factor"]
    by (auto simp: n)
qed

text \<open>
  Claim C1 as stated fails: on the docstring batch (grid \<open>[0, 2, 4, 6, 8, 10]\<close>, four
  functions) \<open>fit_predict\<close> with the default factor cannot return \<open>[-1, 1, 1, -1]\<close>,
  whatever the depth and the modified epigraph index compute. With four distances the
  third quartile is at least the third smallest distance, so at most the largest one can
  exceed \<open>Q3 + 1.5 * IQR\<close>.
\<close>

theorem C1_counterexample:
  "\<not> (\<exists>depth mei. snd (outliergram_fit_predict depth mei
           (OutliergramOutlierDetector_init default_factor) example_fd) = Inr [- 1, 1, 1, - 1])"
proof
  assume "\<exists>depth mei. snd (outliergram_fit_predict depth mei
           (OutliergramOutlierDetector_init default_factor) example_fd) = Inr [- 1, 1, 1, - 1]"
  then obtain depth mei where
    h: "snd (outliergram_fit_predict depth mei
           (OutliergramOutlierDetector_init default_factor) example_fd) = Inr [- 1, 1, 1, - 1]"
    by blast
  let ?f = "factor (OutliergramOutlierDetector_init default_factor)"
  from fit_predict_Inr_inv[OF h] obtain d q1 q3 where
    q1: "percentile d 25 = Inr q1" and q3: "percentile d 75 = Inr q3" and
    l: "[- 1, 1, 1, - 1] = map (label_of (q3 + ?f * (q3 - q1))) d"
    by auto
  have f0: "0 \<le> ?f"
    by (simp add: OutliergramOutlierDetector_init_def default_factor_def)
  have "length (map (label_of (q3 + ?f * (q3 - q1))) d) = 4"
    unfolding l[symmetric] by simp
  then have len: "length d = 4" by simp
  have "length (filter (\<lambda>l. l = - 1) (map (label_of (q3 + ?f * (q3 - q1))) d)) \<le> 1"
    unfolding label_of_count by (rule at_most_one_outlier4[OF len f0 q1 q3])
  then show False
    unfolding l[symmetric] by simp
qed

text \<open>
  Claim C1, amended. On the docstring batch, whenever the depth and the modified
  epigraph index return one value per function, \<open>fit_predict\<close> with the default
  parameters returns four labels, each \<open>-1\<close> or \<open>+1\<close>, and at most one of them is \<open>-1\<close>.
\<close>

theorem C1_amended:
  assumes "depth example_fd = Inr mbd" and "mei example_fd = Inr m"
    and "length mbd = 4" and "length m = 4"
  shows "\<exists>labels. snd (outliergram_fit_predict depth mei
             (OutliergramOutlierDetector_init default_factor) example_fd) = Inr labels \<and>
           length labels = 4 \<and> set labels \<subseteq> {- 1, 1} \<and>
           length (filter (\<lambda>l. l = - 1) labels) \<le> 1"
proof -
  let ?self = "OutliergramOutlierDetector_init default_factor"
  have n: "n_samples example_fd = 4" by (simp add: n_samples_def example_fd_def)
  let ?d = "map2 (-) (map (parabola_spec (n_samples example_fd)) m) mbd"
  have len: "length ?d = 4" using assms(3,4) by simp
  then have ne: "?d \<noteq> []" by auto
  obtain q1 where q1: "percentile ?d 25 = Inr q1"
    using percentile_nonempty[OF ne, of 25] by auto
  obtain q3 where q3: "percentile ?d 75 = Inr q3"
    using percentile_nonempty[OF ne, of 75] by auto
  let ?t = "q3 + factor ?self * (q3 - q1)"
  have f0: "0 \<le> factor ?self"
    by (simp add: OutliergramOutlierDetector_init_def default_factor_def)
  have f: "outliergram_fit depth mei ?self example_fd =
             (?self\<lparr>mbd_fit := Some mbd, mei_fit := Some m,
                 parabola_fit := Some (map (parabola_spec (n_samples example_fd)) m),
                 distances_fit := Some ?d,
                 max_inlier_distance_fit := Some ?t\<rparr>, None)"
    using outliergram_fit_run[where depth=depth and mei=mei and X=example_fd and self="?self"
        and mbd=mbd and m=m and ?q1.0=q1 and ?q3.0=q3] assms q1 q3
    by (simp add: n)
  have "outliergram_fit_predict depth mei ?self example_fd =
          (?self\<lparr>mbd_fit := Some mbd, mei_fit := Some m,
                 parabola_fit := Some (map (parabola_spec (n_samples example_fd)) m),
                 distances_fit := Some ?d,
                 max_inlier_distance_fit := Some ?t\<rparr>, Inr (map (label_of ?t) ?d))"
    by (rule outliergram_fit_predict_run[OF f]) simp_all
  then have p: "snd (outliergram_fit_predict depth mei ?self example_fd) = Inr (map (label_of ?t) ?d)"
    by (simp only: snd_conv)
  have "length (filter (\<lambda>l. l = - 1) (map (label_of ?t) ?d)) \<le> 1"
    unfolding label_of_count by (rule at_most_one_outlier4[OF len f0 q1 q3])
  moreover have "length (map (label_of ?t) ?d) = 4" using len by simp
  moreover have "set (map (label_of ?t) ?d) \<subseteq> {- 1, 1}" by (rule label_of_range)
  ultimately show ?thesis using p by blast
qed

text \<open>The amended C1 at concrete depth and index values for the four functions.\<close>

theorem C1_amended_witness:
  "\<exists>labels. snd (outliergram_fit_predict (\<lambda>X. Inr [1/2, 5/6, 11/15, 2/3])
             (\<lambda>X. Inr [1/4, 1/2, 7/8, 37/40])
             (OutliergramOutlierDetector_init default_factor) example_fd) = Inr labels \<and>
           length labels = 4 \<and> set labels \<subseteq> {- 1, 1} \<and>
           length (filter (\<lambda>l. l = - 1) labels) \<le> 1"
  using C1_amended[of "\<lambda>X. Inr [1/2, 5/6, 11/15, 2/3]" "[1/2, 5/6, 11/15, 2/3]"
      "\<lambda>X. Inr [1/4, 1/2, 7/8, 37/40]" "[1/4, 1/2, 7/8, 37/40]"]
  by simp

section \<open>RKHS variable selection: proofs\<close>

subsection \<open>argmax\<close>

lemma argmax_scan_bound:
  "best_i < i \<Longrightarrow> argmax_scan xs i best best_i < i + length xs"
proof (induction xs arbitrary: i best best_i)
  case Nil
  then show ?case by simp
next
  case (Cons x xs)
  have "argmax_scan xs (Suc i) x i < Suc i + length xs"
    by (rule Cons.IH) simp
  moreover have "argmax_scan xs (Suc i) best best_i < Suc i + length xs"
    by (rule Cons.IH) (use Cons.prems in simp)
  ultimately show ?case by simp
qed

lemma np_argmax_nonempty:
  assumes "a \<noteq> []"
  shows "\<exists>k. np_argmax a = Inr k \<and> k < length a"
proof -
  obtain x xs where a: "a = x # xs" using assms by (cases a) auto
  have "argmax_scan xs 1 x 0 < 1 + length xs"
    by (rule argmax_scan_bound) simp
  then show ?thesis by (simp add: np_argmax_def a)
qed

subsection \<open>shapes\<close>

lemma square_iff: "square P a = (length a = P \<and> (\<forall>r \<in> set a. length r = P))"
  by (simp add: square_def list_all_iff)

lemma square_same_shape: "square P a \<Longrightarrow> square P b \<Longrightarrow> same_shape a b"
  by (auto simp: square_iff same_shape_def list_eq_iff_nth_eq)

lemma square_map: "square P a \<Longrightarrow> square P (map (map f) a)"
  by (simp add: square_iff)

lemma square_map2:
  assumes "square P a" and "square P b"
  shows "square P (map2 (map2 f) a b)"
proof -
  have "length r = P" if "r \<in> set (map2 (map2 f) a b)" for r
  proof -
    from that obtain ra rb where "(ra, rb) \<in> set (zip a b)" and r: "r = map2 f ra rb"
      by auto
    then have "ra \<in> set a" "rb \<in> set b"
      by (auto dest: set_zip_leftD set_zip_rightD)
    then show ?thesis using assms by (simp add: r square_iff)
  qed
  then show ?thesis using assms by (simp add: square_iff)
qed

lemma square_one: "square 1 a \<longleftrightarrow> (\<exists>x. a = [[x]])"
proof
  assume "square 1 a"
  then have "length a = 1" and r: "\<forall>r \<in> set a. length r = 1" by (simp_all add: square_iff)
  then obtain r where a: "a = [r]" by (cases a) auto
  with r have "length r = 1" by simp
  then obtain x where "r = [x]" by (cases r) auto
  with a show "\<exists>x. a = [[x]]" by simp
next
  assume "\<exists>x. a = [[x]]"
  then show "square 1 a" by (auto simp: square_iff)
qed

lemma length_class_means: "length (class_means X Y) = shape1 X"
  by (simp add: class_means_def mean_axis0_def)

lemma np_cov_regular:
  assumes "length rows \<noteq> 1"
  shows "np_cov P rows = map (\<lambda>a. map (\<lambda>b. cov_entry rows a b) [0..<P]) [0..<P]"
proof (cases rows)
  case Nil
  then show ?thesis by (simp add: np_cov_def)
next
  case (Cons r rest)
  then have "rest \<noteq> []" using assms by auto
  then show ?thesis by (cases rest) (simp_all add: np_cov_def Cons)
qed

lemma np_cov_single:
  assumes "length rows = 1"
  shows "\<exists>r. rows = [r] \<and> np_cov P rows = [[row_variance r]]"
proof -
  obtain r where "rows = [r]" using assms by (cases rows) auto
  then show ?thesis by (simp add: np_cov_def)
qed

lemma square_np_cov:
  assumes "length rows \<noteq> 1"
  shows "square P (np_cov P rows)"
  by (auto simp: square_iff np_cov_regular[OF assms])

text \<open>
  The three shapes of the broadcast sum: two \<open>P \<times> P\<close> matrices, or one of them \<open>1 \<times> 1\<close>.
  The result is \<open>P \<times> P\<close>, and a property of the entries that \<open>f\<close> preserves carries over.
\<close>

lemma entries_map2:
  assumes "\<And>x y. Q x \<Longrightarrow> Q y \<Longrightarrow> Q (f x y)"
    and "\<forall>x \<in> entries a. Q x" and "\<forall>y \<in> entries b. Q y"
  shows "\<forall>z \<in> entries (map2 (map2 f) a b). Q z"
proof
  fix z assume "z \<in> entries (map2 (map2 f) a b)"
  then obtain r where r: "r \<in> set (map2 (map2 f) a b)" "z \<in> set r"
    unfolding entries_def by blast
  then obtain ra rb where ab: "(ra, rb) \<in> set (zip a b)" and r': "r = map2 f ra rb"
    by auto
  with r(2) obtain x y where xy: "(x, y) \<in> set (zip ra rb)" and z: "z = f x y"
    by auto
  have "ra \<in> set a" "rb \<in> set b"
    using ab by (auto dest: set_zip_leftD set_zip_rightD)
  moreover have "x \<in> set ra" "y \<in> set rb"
    using xy by (auto dest: set_zip_leftD set_zip_rightD)
  ultimately have "x \<in> entries a" "y \<in> entries b"
    by (auto simp: entries_def)
  with assms z show "Q z" by simp
qed

lemma broadcast_matrix_square:
  assumes "square P a" and "square P b"
  shows "broadcast_matrix f a b = Inr (map2 (map2 f) a b)"
  using square_same_shape[OF assms] by (simp add: broadcast_matrix_def)

lemma broadcast_matrix_cases:
  assumes a: "square P a \<or> square 1 a" and b: "square P b \<or> square 1 b"
    and P: "square P a \<or> square P b"
    and f: "\<And>x y. Q x \<Longrightarrow> Q y \<Longrightarrow> Q (f x y)"
    and qa: "\<forall>x \<in> entries a. Q x" and qb: "\<forall>y \<in> entries b. Q y"
  shows "\<exists>v. broadcast_matrix f a b = Inr v \<and> square P v \<and> (\<forall>z \<in> entries v. Q z)"
proof (cases "square P a \<and> square P b")
  case True
  then have "broadcast_matrix f a b = Inr (map2 (map2 f) a b)"
    using broadcast_matrix_square[of P a b f] by simp
  moreover have "square P (map2 (map2 f) a b)"
    using True by (simp add: square_map2)
  moreover have "\<forall>z \<in> entries (map2 (map2 f) a b). Q z"
    by (rule entries_map2[OF f qa qb])
  ultimately show ?thesis by blast
next
  case False
  then consider "square 1 a" "square P b" "\<not> square P a" | "square P a" "square 1 b" "\<not> square P b"
    using a b P by blast
  then show ?thesis
  proof cases
    case 1
    then obtain x where x: "a = [[x]]" using square_one[of a] by blast
    have ns: "\<not> same_shape a b"
    proof
      assume "same_shape a b"
      then have "map length b = [1]" by (simp add: same_shape_def x)
      then have "square 1 b"
        by (cases b) (auto simp: square_iff)
      then have "P = 1" using 1(2) by (auto simp: square_iff)
      with 1 show False by simp
    qed
    have "broadcast_matrix f a b = Inr (map (map (f x)) b)"
      using ns by (simp add: broadcast_matrix_def x)
    moreover have "square P (map (map (f x)) b)"
      using 1(2) by (rule square_map)
    moreover have "\<forall>z \<in> entries (map (map (f x)) b). Q z"
      using f qa qb by (auto simp: entries_def x)
    ultimately show ?thesis by blast
  next
    case 2
    then obtain y where y: "b = [[y]]" using square_one[of b] by blast
    have ns: "\<not> same_shape a b"
    proof
      assume "same_shape a b"
      then have "map length a = [1]" by (simp add: same_shape_def y)
      then have "square 1 a"
        by (cases a) (auto simp: square_iff)
      then have "P = 1" using 2(1) by (auto simp: square_iff)
      with 2 show False by simp
    qed
    have na: "\<nexists>x. a = [[x]]"
    proof
      assume "\<exists>x. a = [[x]]"
      then have "square 1 a" using square_one[of a] by blast
      then have "P = 1" using 2(1) by (auto simp: square_iff)
      with 2 show False by simp
    qed
    have "broadcast_matrix f a b = Inr (map (map (\<lambda>x. f x y)) a)"
      using ns na by (auto simp: broadcast_matrix_def y split: list.splits)
    moreover have "square P (map (map (\<lambda>x. f x y)) a)"
      using 2(1) by (rule square_map)
    moreover have "\<forall>z \<in> entries (map (map (\<lambda>x. f x y)) a). Q z"
      using f qa qb by (auto simp: entries_def y)
    ultimately show ?thesis by blast
  qed
qed

lemma shape1_square: "square P a \<Longrightarrow> 0 < P \<Longrightarrow> shape1 a = P"
  by (cases a) (auto simp: square_iff shape1_def)

lemma mu_sigma_square:
  assumes "length means = P" and "square P variances"
  shows "mu_sigma means variances
           = Inr (map2 np_div (map np_abs means) (map np_sqrt (np_diag variances)))"
    and "length (map2 np_div (map np_abs means) (map np_sqrt (np_diag variances))) = P"
proof -
  have d: "length (np_diag variances) = P"
  proof (cases "P = 0")
    case True
    then show ?thesis using assms by (simp add: np_diag_def square_iff)
  next
    case False
    then have "shape1 variances = P" using shape1_square[OF assms(2)] by simp
    then show ?thesis using assms by (simp add: np_diag_def square_iff)
  qed
  show "mu_sigma means variances
           = Inr (map2 np_div (map np_abs means) (map np_sqrt (np_diag variances)))"
    using assms(1) d by (simp add: mu_sigma_def broadcast_vector_def)
  show "length (map2 np_div (map np_abs means) (map np_sqrt (np_diag variances))) = P"
    using assms(1) d by simp
qed


lemma take_indices_ok:
  assumes "list_all (\<lambda>i. i < length a) sel"
  shows "take_indices a sel = Inr (map (\<lambda>i. a ! i) sel)"
  using assms by (simp add: take_indices_def)

lemma submatrix_ok:
  assumes "square P a" and "list_all (\<lambda>i. i < P) sel"
  shows "submatrix a sel = Inr (map (\<lambda>i. map (\<lambda>j. a ! i ! j) sel) sel)"
proof -
  have "list_all (\<lambda>j. list_all (\<lambda>r. j < length r) a) sel"
    using assms by (auto simp: list_all_iff square_iff)
  moreover have "list_all (\<lambda>i. i < length a) sel"
    using assms by (simp add: square_iff)
  ultimately show ?thesis by (simp add: submatrix_def)
qed

subsection \<open>candidates\<close>

lemma np_dot_cases: "(\<exists>v. np_dot u v' = Inr v) \<or> np_dot u v' \<in> Inl ` solver_errors"
  by (simp add: np_dot_def solver_errors_def)

lemma candidate_score_cases:
  assumes "length means = P" and "square P variances" and "list_all (\<lambda>i. i < P) (sel @ [c])"
  shows "(\<exists>v. candidate_score lstsq means variances sel c = Inr v) \<or>
         candidate_score lstsq means variances sel c \<in> Inl ` solver_errors"
proof -
  have t: "take_indices means (sel @ [c]) = Inr (map (\<lambda>i. means ! i) (sel @ [c]))"
    by (rule take_indices_ok) (use assms in simp)
  have s: "submatrix variances (sel @ [c]) = Inr (map (\<lambda>i. map (\<lambda>j. variances ! i ! j) (sel @ [c])) (sel @ [c]))"
    by (rule submatrix_ok[OF assms(2,3)])
  show ?thesis
    unfolding candidate_score_def Let_def t s
    using np_dot_cases by (auto simp: solver_errors_def split: option.splits)
qed

lemma fill_aux_cases:
  assumes "\<And>c. c \<in> set cs \<Longrightarrow> (\<exists>v. f c = Inr v) \<or> f c \<in> Inl ` E"
  shows "(\<exists>vs. fill_aux f cs = Inr vs \<and> length vs = length cs) \<or> fill_aux f cs \<in> Inl ` E"
  using assms
proof (induction cs)
  case Nil
  then show ?case by simp
next
  case (Cons c cs)
  have c: "(\<exists>v. f c = Inr v) \<or> f c \<in> Inl ` E" by (rule Cons.prems) simp
  have r: "(\<exists>vs. fill_aux f cs = Inr vs \<and> length vs = length cs) \<or> fill_aux f cs \<in> Inl ` E"
    by (rule Cons.IH) (use Cons.prems in simp)
  from c r show ?case by (auto split: sum.splits)
qed

subsection \<open>the greedy loop\<close>

lemma sel_inv_bounds:
  assumes "sel_inv P n i st"
  shows "list_all (\<lambda>j. j < P) (take i (selected_features st))"
    and "list_all (\<lambda>j. j < P) (indexes st)"
    and "i + length (indexes st) = P"
proof -
  have m: "mset (take i (selected_features st)) + mset (indexes st) = mset [0..<P]"
    and l: "length (selected_features st) = n" "i \<le> n"
    using assms by (simp_all add: sel_inv_def)
  have "set (take i (selected_features st)) \<union> set (indexes st) = set [0..<P]"
    by (metis m set_mset_mset set_mset_union)
  then show "list_all (\<lambda>j. j < P) (take i (selected_features st))"
    and "list_all (\<lambda>j. j < P) (indexes st)"
    by (auto simp: list_all_iff)
  have "size (mset (take i (selected_features st)) + mset (indexes st)) = size (mset [0..<P])"
    by (simp only: m)
  then show "i + length (indexes st) = P"
    using l by simp
qed

lemma mset_delete_nth:
  assumes "k < length xs"
  shows "mset (take k xs @ drop (Suc k) xs) + {#xs ! k#} = mset xs"
proof -
  have "xs = take k xs @ xs ! k # drop (Suc k) xs"
    by (rule id_take_nth_drop[OF assms])
  then have "mset xs = mset (take k xs @ xs ! k # drop (Suc k) xs)" by simp
  then show ?thesis by simp
qed

lemma select_step_cases:
  assumes inv: "sel_inv P n i st" and i: "i < n" and n: "n \<le> P"
    and cand: "\<And>sel c. list_all (\<lambda>j. j < P) (sel @ [c]) \<Longrightarrow>
                 (\<exists>v. candidate_score lstsq means variances sel c = Inr v) \<or>
                 candidate_score lstsq means variances sel c \<in> Inl ` E"
  shows "(\<exists>st'. select_step lstsq means variances i st = Inr st' \<and> sel_inv P n (Suc i) st') \<or>
         select_step lstsq means variances i st \<in> Inl ` E"
proof -
  let ?sf = "selected_features st" and ?idx = "indexes st"
  let ?f = "candidate_score lstsq means variances (take i ?sf)"
  note b = sel_inv_bounds[OF inv]
  have l: "length ?sf = n" "length (score st) = n"
    using inv by (simp_all add: sel_inv_def)
  have "(\<exists>v. ?f c = Inr v) \<or> ?f c \<in> Inl ` E" if "c \<in> set ?idx" for c
  proof (rule cand)
    show "list_all (\<lambda>j. j < P) (take i ?sf @ [c])"
      using b(1,2) that by (simp add: list_all_iff)
  qed
  from fill_aux_cases[of ?idx ?f E, OF this]
  consider aux where "fill_aux ?f ?idx = Inr aux" "length aux = length ?idx"
    | "fill_aux ?f ?idx \<in> Inl ` E"
    by blast
  then show ?thesis
  proof cases
    case 1
    have "length ?idx = P - i" using b(3) by simp
    then have ne: "aux \<noteq> []" using 1(2) i n by auto
    from np_argmax_nonempty[OF ne] obtain k where k: "np_argmax aux = Inr k" "k < length aux"
      by blast
    let ?st' = "\<lparr>selected_features = ?sf[i := ?idx ! k], score = (score st)[i := aux ! k],
                 indexes = take k ?idx @ drop (Suc k) ?idx\<rparr>"
    have kk: "k < length ?idx" using k(2) 1(2) by simp
    have step: "select_step lstsq means variances i st = Inr ?st'"
      using kk k i l 1 by (simp add: select_step_def np_delete_def)
    have t: "take (Suc i) (?sf[i := ?idx ! k]) = take i ?sf @ [?idx ! k]"
      using i l by (simp add: take_Suc_conv_app_nth)
    have m: "mset (take i ?sf) + mset ?idx = mset [0..<P]"
      using inv by (simp add: sel_inv_def)
    have "mset (take i ?sf @ [?idx ! k]) + mset (take k ?idx @ drop (Suc k) ?idx)
            = mset (take i ?sf) + (mset (take k ?idx @ drop (Suc k) ?idx) + {#?idx ! k#})"
      by simp
    also have "\<dots> = mset (take i ?sf) + mset ?idx"
      by (simp only: mset_delete_nth[OF kk])
    finally have "mset (take (Suc i) (?sf[i := ?idx ! k])) + mset (take k ?idx @ drop (Suc k) ?idx)
                 = mset [0..<P]"
      unfolding t by (simp only: m)
    then have "sel_inv P n (Suc i) ?st'"
      using i l by (simp add: sel_inv_def)
    with step show ?thesis by blast
  next
    case 2
    then show ?thesis by (auto simp: select_step_def)
  qed
qed

lemma select_loop_cases:
  assumes inv: "sel_inv P n i st" and n: "n \<le> P"
    and cand: "\<And>sel c. list_all (\<lambda>j. j < P) (sel @ [c]) \<Longrightarrow>
                 (\<exists>v. candidate_score lstsq means variances sel c = Inr v) \<or>
                 candidate_score lstsq means variances sel c \<in> Inl ` E"
  shows "(\<exists>st'. select_loop lstsq means variances [i..<n] st = Inr st' \<and> sel_inv P n n st') \<or>
         select_loop lstsq means variances [i..<n] st \<in> Inl ` E"
  using inv
proof (induction "n - i" arbitrary: i st)
  case 0
  then have "i = n" by (simp add: sel_inv_def)
  with 0 show ?case by simp
next
  case (Suc d)
  then have i: "i < n" by simp
  then have u: "[i..<n] = i # [Suc i..<n]" by (rule upt_conv_Cons)
  from select_step_cases[OF Suc.prems i n cand]
  consider st' where "select_step lstsq means variances i st = Inr st'" "sel_inv P n (Suc i) st'"
    | "select_step lstsq means variances i st \<in> Inl ` E"
    by blast
  then show ?case
  proof cases
    case 1
    have "d = n - Suc i" using Suc.hyps(2) by simp
    from Suc.hyps(1)[OF this 1(2)] show ?thesis
      by (simp add: u 1(1))
  next
    case 2
    then show ?thesis by (auto simp: u)
  qed
qed

lemma rkhs_vs_cases:
  fixes X :: "real list list" and Y :: "int list" and n :: int
  defines "P \<equiv> shape1 X"
  defines "p1 \<equiv> real_of_int (sum_list Y) / real (length Y)"
  defines "p0 \<equiv> real_of_int (int (length Y) - sum_list Y) / real (length Y)"
  assumes n1: "1 \<le> n" and nP: "n \<le> int P" and len: "length Y = length X"
    and var: "pooled_variances X Y p1 p0 = Inr V" and sq: "square P V"
    and cand: "\<And>sel c. list_all (\<lambda>j. j < P) (sel @ [c]) \<Longrightarrow>
                 (\<exists>v. candidate_score lstsq (class_means X Y) V sel c = Inr v) \<or>
                 candidate_score lstsq (class_means X Y) V sel c \<in> Inl ` E"
  shows "(\<exists>feats scores rest. rkhs_vs lstsq X Y n = Inr (feats, scores) \<and>
            length feats = nat n \<and> length scores = nat n \<and>
            mset feats + mset rest = mset [0..<P]) \<or>
         rkhs_vs lstsq X Y n \<in> Inl ` E"
proof -
  let ?means = "class_means X Y"
  let ?ms = "map2 np_div (map np_abs ?means) (map np_sqrt (np_diag V))"
  have P1: "1 \<le> P" using n1 nP by linarith
  then have "X \<noteq> []" by (auto simp: P_def shape1_def)
  then have Y0: "real (length Y) \<noteq> 0" using len by simp
  have d1: "py_truediv (real_of_int (sum_list Y)) (real (length Y)) = Inr p1"
    and d0: "py_truediv (real (length Y) - real_of_int (sum_list Y)) (real (length Y)) = Inr p0"
    using Y0 by (simp_all add: py_truediv_def p1_def p0_def)
  have lm: "length ?means = P" unfolding P_def by (rule length_class_means)
  have ms: "mu_sigma ?means V = Inr ?ms" and lms: "length ?ms = P"
    using mu_sigma_square[OF lm sq] by simp_all
  then have "?ms \<noteq> []" using P1 by auto
  from np_argmax_nonempty[OF this] lms obtain first where
    f: "np_argmax ?ms = Inr first" "first < P"
    by auto
  let ?idx1 = "take first [0..<P] @ drop (Suc first) [0..<P]"
  have del: "np_delete [0..<P] first = Inr ?idx1"
    using f(2) by (simp add: np_delete_def)
  let ?st = "\<lparr>selected_features = (replicate (nat n) (0::nat))[0 := first],
               score = (replicate (nat n) (Fin 0))[0 := ?ms ! first],
               indexes = ?idx1\<rparr>"
  have n0: "0 < nat n" using n1 by simp
  have t1: "take 1 ((replicate (nat n) (0::nat))[0 := first]) = [first]"
    using n0 by (cases "nat n") simp_all
  have "mset ?idx1 + {#[0..<P] ! first#} = mset [0..<P]"
    by (rule mset_delete_nth) (use f(2) in simp)
  then have "mset [first] + mset ?idx1 = mset [0..<P]"
    using f(2) by (simp add: ac_simps)
  then have inv: "sel_inv P (nat n) 1 ?st"
    using n0 t1 by (simp add: sel_inv_def)
  have nn: "nat n \<le> P" using nP by simp
  have run: "rkhs_vs lstsq X Y n =
          (case select_loop lstsq ?means V [1..<nat n] ?st of
             Inl e \<Rightarrow> Inl e | Inr st \<Rightarrow> Inr (selected_features st, score st))"
    using n1 nP f(2) lms
    by (simp add: rkhs_vs_def Let_def len[symmetric] d1 d0 var ms f(1) del flip: P_def)
  from select_loop_cases[OF inv nn cand]
  consider st' where "select_loop lstsq ?means V [1..<nat n] ?st = Inr st'" "sel_inv P (nat n) (nat n) st'"
    | "select_loop lstsq ?means V [1..<nat n] ?st \<in> Inl ` E"
    by blast
  then show ?thesis
  proof cases
    case 1
    have "rkhs_vs lstsq X Y n = Inr (selected_features st', score st')"
      unfolding run 1(1) by simp
    moreover have ll: "length (selected_features st') = nat n" "length (score st') = nat n"
      using 1(2) by (simp_all add: sel_inv_def)
    moreover have "take (nat n) (selected_features st') = selected_features st'"
      using ll(1) by simp
    then have "mset (selected_features st') + mset (indexes st') = mset [0..<P]"
      using 1(2) unfolding sel_inv_def by metis
    ultimately show ?thesis by blast
  next
    case 2
    then obtain e where "select_loop lstsq ?means V [1..<nat n] ?st = Inl e" "e \<in> E"
      by auto
    then have "rkhs_vs lstsq X Y n = Inl e"
      unfolding run by simp
    with \<open>e \<in> E\<close> show ?thesis by simp
  qed
qed

subsection \<open>finite values\<close>

lemma rows_where_nonempty:
  assumes "c \<in> set Y" and "length Y = length X"
  shows "rows_where X Y c \<noteq> []"
proof -
  from assms(1) obtain i where i: "i < length Y" "Y ! i = c"
    by (auto simp: in_set_conv_nth)
  then have "(X ! i, c) \<in> set (zip X Y)"
    using assms(2) by (auto simp: set_zip)
  then have "(X ! i, c) \<in> set (filter (\<lambda>(r, l). l = c) (zip X Y))"
    by simp
  then have "filter (\<lambda>(r, l). l = c) (zip X Y) \<noteq> []"
    by (metis empty_iff empty_set)
  then show ?thesis by (simp add: rows_where_def)
qed

lemma is_finite_class_means:
  assumes "rows_where X Y 1 \<noteq> []" and "rows_where X Y 0 \<noteq> []" and "t < shape1 X"
  shows "is_finite (class_means X Y ! t)"
  using assms by (simp add: class_means_def mean_axis0_def np_mean_def column_def np_sub_def)

lemma rows_where_subset: "set (rows_where X Y c) \<subseteq> set X"
  by (auto simp: rows_where_def dest: set_zip_leftD)

lemma scaled_cov_shape:
  fixes X :: "real list list" and Y :: "int list" and c :: int and p :: real
  assumes "rectangular X" and "1 \<le> shape1 X"
  defines "a \<equiv> map (map (np_mul (Fin p))) (np_cov (shape1 X) (rows_where X Y c))"
  shows "square (shape1 X) a \<or> square 1 a"
    and "length (rows_where X Y c) \<noteq> 1 \<Longrightarrow> square (shape1 X) a"
    and "rows_where X Y c \<noteq> [] \<Longrightarrow> \<forall>z \<in> entries a. is_finite z"
proof -
  let ?rows = "rows_where X Y c" and ?P = "shape1 X"
  show reg: "square ?P a" if "length ?rows \<noteq> 1"
    unfolding a_def by (intro square_map square_np_cov that)
  show "square ?P a \<or> square 1 a"
  proof (cases "length ?rows = 1")
    case True
    from np_cov_single[OF True, of ?P] have "square 1 a"
      by (auto simp: a_def square_iff)
    then show ?thesis ..
  next
    case False
    then show ?thesis using reg by simp
  qed
  show "\<forall>z \<in> entries a. is_finite z" if ne: "?rows \<noteq> []"
  proof (cases "length ?rows = 1")
    case True
    from np_cov_single[OF True, of ?P] obtain r where
      r: "?rows = [r]" "np_cov ?P ?rows = [[row_variance r]]"
      by blast
    then have "r \<in> set X" using rows_where_subset[of X Y c] by auto
    then have "length r = ?P" using assms(1) by (simp add: rectangular_def list_all_iff)
    then have "r \<noteq> []" using assms(2) by auto
    then show ?thesis by (simp add: a_def r(2) entries_def row_variance_def)
  next
    case False
    then show ?thesis
      using ne by (auto simp: a_def np_cov_regular entries_def cov_entry_def)
  qed
qed

lemma np_add_finite: "is_finite x \<Longrightarrow> is_finite y \<Longrightarrow> is_finite (np_add x y)"
  by (cases x; cases y) simp_all

lemma pooled_variances_shape:
  assumes rect: "rectangular X" and P: "1 \<le> shape1 X"
    and reg: "length (rows_where X Y 1) \<noteq> 1 \<or> length (rows_where X Y 0) \<noteq> 1"
  shows "\<exists>v. pooled_variances X Y p1 p0 = Inr v \<and> square (shape1 X) v"
proof -
  let ?a = "map (map (np_mul (Fin p1))) (np_cov (shape1 X) (rows_where X Y 1))"
  let ?b = "map (map (np_mul (Fin p0))) (np_cov (shape1 X) (rows_where X Y 0))"
  have "\<exists>v. broadcast_matrix np_add ?a ?b = Inr v \<and> square (shape1 X) v \<and> (\<forall>z \<in> entries v. True)"
  proof (rule broadcast_matrix_cases)
    show "square (shape1 X) ?a \<or> square 1 ?a" by (rule scaled_cov_shape(1)[OF rect P])
    show "square (shape1 X) ?b \<or> square 1 ?b" by (rule scaled_cov_shape(1)[OF rect P])
    show "square (shape1 X) ?a \<or> square (shape1 X) ?b"
      using reg scaled_cov_shape(2)[OF rect P, of Y 1 p1] scaled_cov_shape(2)[OF rect P, of Y 0 p0]
      by blast
  qed simp_all
  then show ?thesis by (auto simp: pooled_variances_def)
qed

lemma pooled_variances_finite:
  assumes rect: "rectangular X" and P: "1 \<le> shape1 X"
    and reg: "length (rows_where X Y 1) \<noteq> 1 \<or> length (rows_where X Y 0) \<noteq> 1"
    and r1: "rows_where X Y 1 \<noteq> []" and r0: "rows_where X Y 0 \<noteq> []"
  shows "\<exists>v. pooled_variances X Y p1 p0 = Inr v \<and> square (shape1 X) v \<and>
           (\<forall>i < shape1 X. \<forall>j < shape1 X. is_finite (v ! i ! j))"
proof -
  let ?a = "map (map (np_mul (Fin p1))) (np_cov (shape1 X) (rows_where X Y 1))"
  let ?b = "map (map (np_mul (Fin p0))) (np_cov (shape1 X) (rows_where X Y 0))"
  have "\<exists>v. broadcast_matrix np_add ?a ?b = Inr v \<and> square (shape1 X) v \<and>
          (\<forall>z \<in> entries v. is_finite z)"
  proof (rule broadcast_matrix_cases)
    show "square (shape1 X) ?a \<or> square 1 ?a" by (rule scaled_cov_shape(1)[OF rect P])
    show "square (shape1 X) ?b \<or> square 1 ?b" by (rule scaled_cov_shape(1)[OF rect P])
    show "square (shape1 X) ?a \<or> square (shape1 X) ?b"
      using reg scaled_cov_shape(2)[OF rect P, of Y 1 p1] scaled_cov_shape(2)[OF rect P, of Y 0 p0]
      by blast
    show "\<forall>z \<in> entries ?a. is_finite z" by (rule scaled_cov_shape(3)[OF rect P r1])
    show "\<forall>z \<in> entries ?b. is_finite z" by (rule scaled_cov_shape(3)[OF rect P r0])
  qed (rule np_add_finite)
  then obtain v where v: "pooled_variances X Y p1 p0 = Inr v" "square (shape1 X) v"
    "\<forall>z \<in> entries v. is_finite z"
    by (auto simp: pooled_variances_def)
  have "is_finite (v ! i ! j)" if "i < shape1 X" "j < shape1 X" for i j
  proof -
    have "v ! i \<in> set v" using that(1) v(2) by (simp add: square_iff)
    moreover have "v ! i ! j \<in> set (v ! i)" using that v(2) by (simp add: square_iff)
    ultimately have "v ! i ! j \<in> entries v" by (auto simp: entries_def)
    with v(3) show ?thesis by simp
  qed
  with v show ?thesis by blast
qed

lemma candidate_score_ok:
  assumes lm: "length means = P" and sq: "square P variances"
    and fm: "\<And>t. t < P \<Longrightarrow> is_finite (means ! t)"
    and fv: "\<And>i j. i < P \<Longrightarrow> j < P \<Longrightarrow> is_finite (variances ! i ! j)"
    and solver: "\<And>A b. list_all is_finite b \<Longrightarrow> list_all (list_all is_finite) A \<Longrightarrow>
                   length A = length b \<Longrightarrow> list_all (\<lambda>r. length r = length b) A \<Longrightarrow>
                   \<exists>x. lstsq A b = Some x \<and> length x = length b"
    and sel: "list_all (\<lambda>i. i < P) (sel @ [c])"
  shows "\<exists>v. candidate_score lstsq means variances sel c = Inr v"
proof -
  let ?s = "sel @ [c]"
  let ?b = "map (\<lambda>i. means ! i) ?s"
  let ?A = "map (\<lambda>i. map (\<lambda>j. variances ! i ! j) ?s) ?s"
  have t: "take_indices means ?s = Inr ?b"
    by (rule take_indices_ok) (use lm sel in simp)
  have s: "submatrix variances ?s = Inr ?A"
    by (rule submatrix_ok[OF sq sel])
  have "list_all is_finite ?b"
    using sel fm by (auto simp: list_all_iff)
  moreover have "list_all (list_all is_finite) ?A"
    using sel fv by (auto simp: list_all_iff)
  moreover have "length ?A = length ?b" by simp
  moreover have "list_all (\<lambda>r. length r = length ?b) ?A"
    by (simp add: list_all_iff)
  ultimately obtain x where x: "lstsq ?A ?b = Some x" "length x = length ?b"
    using solver by blast
  show ?thesis
    unfolding candidate_score_def Let_def t s
    using x by (simp add: np_dot_def)
qed


lemma mset_upt_permutation:
  assumes "mset feats + mset rest = mset [0..<P]" and "length feats = P"
  shows "distinct feats \<and> set feats = {0..<P}"
proof -
  have "size (mset feats + mset rest) = size (mset [0..<P])"
    by (simp only: assms(1))
  then have "rest = []" using assms(2) by simp
  then have m: "mset feats = mset [0..<P]" using assms(1) by simp
  have "distinct feats"
    using mset_eq_imp_distinct_iff[OF m] by simp
  moreover have "set feats = set [0..<P]"
    by (rule mset_eq_setD[OF m])
  ultimately show ?thesis by simp
qed

text \<open>
  The selection of all points. On a two-class input on \<open>P \<ge> 1\<close> domain points (a matrix
  of trajectories with one label per row, both classes 0 and 1 present, and not both
  classes consisting of a single trajectory), with a least-squares solver that returns a
  solution for every finite square system, the greedy selection with \<open>n_components = P\<close>
  ends without an exception and returns \<open>P\<close> point indices that are pairwise distinct and
  are exactly the points \<open>0, \<dots>, P - 1\<close>.
\<close>

lemma rkhs_vs_all_points:
  assumes rect: "rectangular X" and P: "1 \<le> shape1 X" and len: "length Y = length X"
    and c0: "0 \<in> set Y" and c1: "1 \<in> set Y"
    and reg: "length (rows_where X Y 1) \<noteq> 1 \<or> length (rows_where X Y 0) \<noteq> 1"
    and solver: "\<And>A b. list_all is_finite b \<Longrightarrow> list_all (list_all is_finite) A \<Longrightarrow>
                   length A = length b \<Longrightarrow> list_all (\<lambda>r. length r = length b) A \<Longrightarrow>
                   \<exists>x. lstsq A b = Some x \<and> length x = length b"
  shows "\<exists>feats scores. rkhs_vs lstsq X Y (int (shape1 X)) = Inr (feats, scores) \<and>
           length feats = shape1 X \<and> length scores = shape1 X \<and>
           distinct feats \<and> set feats = {0..<shape1 X}"
proof -
  let ?P = "shape1 X"
  let ?p1 = "real_of_int (sum_list Y) / real (length Y)"
  let ?p0 = "real_of_int (int (length Y) - sum_list Y) / real (length Y)"
  have r1: "rows_where X Y 1 \<noteq> []" and r0: "rows_where X Y 0 \<noteq> []"
    using rows_where_nonempty[OF c1 len] rows_where_nonempty[OF c0 len] by simp_all
  from pooled_variances_finite[OF rect P reg r1 r0, of ?p1 ?p0] obtain V where
    V: "pooled_variances X Y ?p1 ?p0 = Inr V" "square ?P V"
       "\<forall>i < ?P. \<forall>j < ?P. is_finite (V ! i ! j)"
    by blast
  have fv: "is_finite (V ! i ! j)" if "i < ?P" "j < ?P" for i j
    using V(3) that by simp
  have cand: "(\<exists>v. candidate_score lstsq (class_means X Y) V sel c = Inr v) \<or>
              candidate_score lstsq (class_means X Y) V sel c \<in> Inl ` {}"
    if "list_all (\<lambda>j. j < ?P) (sel @ [c])" for sel c
    using candidate_score_ok[where lstsq = lstsq, OF length_class_means V(2)
        is_finite_class_means[OF r1 r0] fv solver that]
    by blast
  from rkhs_vs_cases[where lstsq = lstsq and E = "{}", OF _ _ len V(1,2) cand, of "int ?P"] P
  obtain feats scores rest where
    r: "rkhs_vs lstsq X Y (int ?P) = Inr (feats, scores)" "length feats = ?P" "length scores = ?P"
       "mset feats + mset rest = mset [0..<?P]"
    by auto
  from mset_upt_permutation[OF r(4) r(2)] r(1,2,3) show ?thesis by blast
qed

lemma example_X_facts:
  "rectangular example_X" "shape1 example_X = 2" "length example_X = 4"
  by (simp_all add: example_X_def rectangular_def shape1_def)

lemma rkhs_vs_all_points_example:
  "\<exists>feats scores. rkhs_vs echo_solver example_X [0, 0, 1, 1] 2 = Inr (feats, scores) \<and>
     length feats = 2 \<and> length scores = 2 \<and> distinct feats \<and> set feats = {0..<2}"
proof -
  have s: "\<exists>x. echo_solver A b = Some x \<and> length x = length b" for A b
    by (simp add: echo_solver_def)
  have r: "length (rows_where example_X [0, 0, 1, 1] 1) \<noteq> 1"
    by (simp add: rows_where_def example_X_def)
  show ?thesis
    using rkhs_vs_all_points[of example_X "[0, 0, 1, 1]" echo_solver] s r
    by (simp add: example_X_facts)
qed

lemma rkhs_vs_assert:
  assumes "n < 1 \<or> int (shape1 X) < n"
  shows "rkhs_vs lstsq X Y n = Inl AssertionError"
  using assms by (auto simp: rkhs_vs_def)

lemma rkvs_fit_assert:
  assumes "card (set y) = 2" and "dim_domain Xf = 1" and "dim_codomain Xf = 1"
    and "coordinate0 (data_matrix Xf) = Inr M" and "check_X_y M y = Inr (M, y)"
    and "n_components self < 1 \<or> int (shape1 M) < n_components self"
  shows "rkvs_fit lstsq self Xf y = (self\<lparr>features_shape_fit := Some [shape1 M]\<rparr>, Some AssertionError)"
proof -
  have "rkhs_vs lstsq M y (n_components self) = Inl AssertionError"
    by (rule rkhs_vs_assert[OF assms(6)])
  then show ?thesis
    using assms(1-5) by (simp add: rkvs_fit_def Let_def)
qed

lemma mset_upt_part:
  assumes "mset feats + mset rest = mset [0..<P]"
  shows "distinct feats \<and> list_all (\<lambda>i. i < P) feats"
proof -
  have m: "mset (feats @ rest) = mset [0..<P]" using assms by simp
  have "distinct (feats @ rest)"
    using mset_eq_imp_distinct_iff[OF m] by simp
  moreover have "set (feats @ rest) = set [0..<P]"
    by (rule mset_eq_setD[OF m])
  ultimately show ?thesis by (auto simp: list_all_iff)
qed

lemma rkhs_vs_in_range:
  assumes "1 \<le> n" and "n \<le> int (shape1 X)" and "length Y = length X"
    and rect: "rectangular X"
    and reg: "length (rows_where X Y 1) \<noteq> 1 \<or> length (rows_where X Y 0) \<noteq> 1"
  shows "(\<exists>feats scores. rkhs_vs lstsq X Y n = Inr (feats, scores) \<and>
            length feats = nat n \<and> length scores = nat n \<and>
            distinct feats \<and> list_all (\<lambda>i. i < shape1 X) feats) \<or>
         rkhs_vs lstsq X Y n = Inl LinAlgError \<or>
         rkhs_vs lstsq X Y n = Inl (ValueError Broadcast)"
proof -
  let ?p1 = "real_of_int (sum_list Y) / real (length Y)"
  let ?p0 = "real_of_int (int (length Y) - sum_list Y) / real (length Y)"
  have P: "1 \<le> shape1 X" using assms(1,2) by linarith
  from pooled_variances_shape[OF rect P reg, of ?p1 ?p0] obtain V where
    V: "pooled_variances X Y ?p1 ?p0 = Inr V" "square (shape1 X) V"
    by blast
  have cand: "(\<exists>v. candidate_score lstsq (class_means X Y) V sel c = Inr v) \<or>
              candidate_score lstsq (class_means X Y) V sel c \<in> Inl ` solver_errors"
    if "list_all (\<lambda>j. j < shape1 X) (sel @ [c])" for sel c
    by (rule candidate_score_cases[OF length_class_means V(2) that])
  from rkhs_vs_cases[where lstsq = lstsq and E = solver_errors, OF assms(1-3) V cand]
  consider feats scores rest where "rkhs_vs lstsq X Y n = Inr (feats, scores)"
      "length feats = nat n" "length scores = nat n" "mset feats + mset rest = mset [0..<shape1 X]"
    | "rkhs_vs lstsq X Y n \<in> Inl ` solver_errors"
    by blast
  then show ?thesis
  proof cases
    case 1
    with mset_upt_part[OF 1(4)] show ?thesis by blast
  next
    case 2
    then show ?thesis by (auto simp: solver_errors_def)
  qed
qed


text \<open>
  The range of \<open>n_components\<close>. Outside \<open>1 \<le> n_components \<le> P\<close> the call ends with an
  assertion error, whatever the solver and the data are; \<open>fit\<close>, once its own validation
  has passed, then ends with that assertion error and leaves \<open>_features_\<close> and \<open>_scores_\<close>
  as they were. Inside the range, with one label per trajectory and not both classes
  consisting of a single trajectory, no index error is raised: the call returns
  \<open>n_components\<close> distinct point indices below \<open>P\<close>, or fails in the least-squares step.
\<close>

lemma n_components_range:
  "(n < 1 \<or> int (shape1 X) < n \<longrightarrow> rkhs_vs lstsq X Y n = Inl AssertionError) \<and>
   (card (set y) = 2 \<and> dim_domain Xf = 1 \<and> dim_codomain Xf = 1 \<and>
    coordinate0 (data_matrix Xf) = Inr M \<and> check_X_y M y = Inr (M, y) \<and>
    (n_components self < 1 \<or> int (shape1 M) < n_components self) \<longrightarrow>
      snd (rkvs_fit lstsq self Xf y) = Some AssertionError \<and>
      features_fit (fst (rkvs_fit lstsq self Xf y)) = features_fit self \<and>
      scores_fit (fst (rkvs_fit lstsq self Xf y)) = scores_fit self) \<and>
   (1 \<le> n \<and> n \<le> int (shape1 X) \<and> length Y = length X \<and> rectangular X \<and>
    (length (rows_where X Y 1) \<noteq> 1 \<or> length (rows_where X Y 0) \<noteq> 1) \<longrightarrow>
      rkhs_vs lstsq X Y n \<noteq> Inl IndexError \<and>
      ((\<exists>feats scores. rkhs_vs lstsq X Y n = Inr (feats, scores) \<and>
            length feats = nat n \<and> length scores = nat n \<and>
            distinct feats \<and> list_all (\<lambda>i. i < shape1 X) feats) \<or>
       rkhs_vs lstsq X Y n = Inl LinAlgError \<or>
       rkhs_vs lstsq X Y n = Inl (ValueError Broadcast)))"
proof (intro conjI impI)
  assume "n < 1 \<or> int (shape1 X) < n"
  then show "rkhs_vs lstsq X Y n = Inl AssertionError" by (rule rkhs_vs_assert)
next
  assume a: "card (set y) = 2 \<and> dim_domain Xf = 1 \<and> dim_codomain Xf = 1 \<and>
    coordinate0 (data_matrix Xf) = Inr M \<and> check_X_y M y = Inr (M, y) \<and>
    (n_components self < 1 \<or> int (shape1 M) < n_components self)"
  then have f: "rkvs_fit lstsq self Xf y = (self\<lparr>features_shape_fit := Some [shape1 M]\<rparr>, Some AssertionError)"
    by (intro rkvs_fit_assert) simp_all
  show "snd (rkvs_fit lstsq self Xf y) = Some AssertionError"
    and "features_fit (fst (rkvs_fit lstsq self Xf y)) = features_fit self"
    and "scores_fit (fst (rkvs_fit lstsq self Xf y)) = scores_fit self"
    by (simp_all add: f)
next
  assume a: "1 \<le> n \<and> n \<le> int (shape1 X) \<and> length Y = length X \<and> rectangular X \<and>
    (length (rows_where X Y 1) \<noteq> 1 \<or> length (rows_where X Y 0) \<noteq> 1)"
  then have r: "(\<exists>feats scores. rkhs_vs lstsq X Y n = Inr (feats, scores) \<and>
            length feats = nat n \<and> length scores = nat n \<and>
            distinct feats \<and> list_all (\<lambda>i. i < shape1 X) feats) \<or>
         rkhs_vs lstsq X Y n = Inl LinAlgError \<or>
         rkhs_vs lstsq X Y n = Inl (ValueError Broadcast)"
    by (intro rkhs_vs_in_range) simp_all
  then show "rkhs_vs lstsq X Y n \<noteq> Inl IndexError" by auto
  from r show "(\<exists>feats scores. rkhs_vs lstsq X Y n = Inr (feats, scores) \<and>
            length feats = nat n \<and> length scores = nat n \<and>
            distinct feats \<and> list_all (\<lambda>i. i < shape1 X) feats) \<or>
         rkhs_vs lstsq X Y n = Inl LinAlgError \<or>
         rkhs_vs lstsq X Y n = Inl (ValueError Broadcast)" .
qed

lemma example_grid_facts:
  "dim_domain example_grid = 1" "dim_codomain example_grid = 1"
  "coordinate0 (data_matrix example_grid) = Inr example_X"
  by (simp_all add: example_grid_def dim_domain_def coordinate0_def example_X_def)

lemma example_check: "check_X_y example_X [0, 0, 1, 1] = Inr (example_X, [0, 0, 1, 1])"
  by (simp add: check_X_y_def check_array_def example_X_facts)

lemma candidate_score_errors:
  "candidate_score lstsq means variances sel c = Inl e \<Longrightarrow> e \<in> raised_by_rkhs_vs"
  by (auto simp: candidate_score_def take_indices_def submatrix_def np_dot_def Let_def
      raised_by_rkhs_vs_def split: sum.splits option.splits if_splits)

lemma fill_aux_errors:
  assumes "\<And>c e. f c = Inl e \<Longrightarrow> e \<in> S" and "fill_aux f cs = Inl e"
  shows "e \<in> S"
  using assms(2)
proof (induction cs)
  case Nil
  then show ?case by simp
next
  case (Cons c cs)
  then show ?case using assms(1) by (auto split: sum.splits)
qed

lemma select_step_errors:
  assumes "select_step lstsq means variances i st = Inl e"
  shows "e \<in> raised_by_rkhs_vs"
proof (cases "fill_aux (candidate_score lstsq means variances (take i (selected_features st))) (indexes st)")
  case (Inl e')
  then have "e' \<in> raised_by_rkhs_vs"
    using fill_aux_errors[of "candidate_score lstsq means variances (take i (selected_features st))"
        raised_by_rkhs_vs "indexes st" e'] candidate_score_errors
    by blast
  then show ?thesis using assms Inl by (simp add: select_step_def)
next
  case (Inr aux)
  then show ?thesis
    using assms
    by (auto simp: select_step_def np_argmax_def np_delete_def raised_by_rkhs_vs_def
        split: sum.splits list.splits if_splits)
qed

lemma select_loop_errors:
  "select_loop lstsq means variances is st = Inl e \<Longrightarrow> e \<in> raised_by_rkhs_vs"
proof (induction "is" arbitrary: st)
  case Nil
  then show ?case by simp
next
  case (Cons i rest)
  then show ?case
    by (auto split: sum.splits dest: select_step_errors)
qed

lemma broadcast_matrix_errors:
  "broadcast_matrix f a b = Inl e \<Longrightarrow> e = ValueError Broadcast"
  by (auto simp: broadcast_matrix_def split: if_splits list.splits)

lemma broadcast_vector_errors:
  "broadcast_vector f a b = Inl e \<Longrightarrow> e = ValueError Broadcast"
  by (auto simp: broadcast_vector_def split: if_splits list.splits)

lemma np_argmax_errors: "np_argmax a = Inl e \<Longrightarrow> e = ValueError EmptySequence"
  by (cases a) (simp_all add: np_argmax_def)

lemma np_delete_errors: "np_delete a k = Inl e \<Longrightarrow> e = IndexError"
  by (simp add: np_delete_def split: if_splits)

lemma py_truediv_errors: "py_truediv a b = Inl e \<Longrightarrow> e = ZeroDivisionError"
  by (simp add: py_truediv_def split: if_splits)

lemma rkhs_vs_errors:
  assumes "rkhs_vs lstsq X Y n = Inl e"
  shows "e \<in> raised_by_rkhs_vs"
proof -
  have s: "AssertionError \<in> raised_by_rkhs_vs" "IndexError \<in> raised_by_rkhs_vs"
    "ZeroDivisionError \<in> raised_by_rkhs_vs" "ValueError Broadcast \<in> raised_by_rkhs_vs"
    "ValueError EmptySequence \<in> raised_by_rkhs_vs"
    by (simp_all add: raised_by_rkhs_vs_def)
  show ?thesis
    using assms s
    unfolding rkhs_vs_def Let_def pooled_variances_def mu_sigma_def
    by (auto split: sum.splits if_splits
        dest: select_loop_errors py_truediv_errors np_delete_errors np_argmax_errors
          broadcast_matrix_errors broadcast_vector_errors)
qed

lemma rkvs_fit_two_labels:
  assumes "card (set y) = 2"
  shows "snd (rkvs_fit lstsq self X y) \<noteq> Some (ValueError (TwoLabels k))"
proof -
  have r: "e \<noteq> ValueError (TwoLabels k)" if "rkhs_vs lstsq M y' n = Inl e" for M y' n e
    using rkhs_vs_errors[OF that] by (auto simp: raised_by_rkhs_vs_def)
  show ?thesis
    using assms r
    by (auto simp: rkvs_fit_def Let_def coordinate0_def check_X_y_def check_array_def
        split: sum.splits if_splits prod.splits)
qed

lemma rkvs_fit_not_two_labels:
  assumes "card (set y) \<noteq> 2"
  shows "rkvs_fit lstsq self X y = (self, Some (ValueError (TwoLabels (card (set y)))))"
  using assms by (simp add: rkvs_fit_def Let_def)

text \<open>
  Claim C8. \<open>RKHSVariableSelection.fit(X, y)\<close> raises the error about the number of labels
  (the \<open>ValueError\<close> "RK-VS can only be used when there are only two different labels") if
  and only if the number of distinct labels in \<open>y\<close> is not two. It is the first check: in
  that case the estimator is returned unchanged, whatever the data and the solver are.
\<close>

theorem C8_two_labels:
  "((\<exists>k. snd (rkvs_fit lstsq self X y) = Some (ValueError (TwoLabels k))) \<longleftrightarrow> card (set y) \<noteq> 2) \<and>
   (card (set y) \<noteq> 2 \<longrightarrow>
      rkvs_fit lstsq self X y = (self, Some (ValueError (TwoLabels (card (set y))))))"
proof (cases "card (set y) = 2")
  case True
  then show ?thesis using rkvs_fit_two_labels[OF True] by simp
next
  case False
  then show ?thesis using rkvs_fit_not_two_labels[OF False] by simp
qed

text \<open>C8 with the three distinct labels 0, 1, 2.\<close>

theorem C8_two_labels_witness:
  "card (set [0, 1, 2 :: int]) \<noteq> 2 \<and>
   rkvs_fit echo_solver (RKHSVariableSelection_init 1) example_grid [0, 1, 2]
     = (RKHSVariableSelection_init 1, Some (ValueError (TwoLabels 3)))"
  using C8_two_labels[of echo_solver "RKHSVariableSelection_init 1" example_grid "[0, 1, 2]"]
  by simp


text \<open>
  The first selected point. \<open>first_argmax\<close> returns a maximiser with nothing as large to
  its left, and \<open>np.argmax\<close> on finite values returns the same index.
\<close>

lemma first_argmax_le: "first_argmax f n \<le> n"
  by (induction n) (auto simp: le_SucI)

lemma first_argmax_max: "j \<le> n \<Longrightarrow> f j \<le> f (first_argmax f n)"
proof (induction n)
  case 0
  then show ?case by simp
next
  case (Suc n)
  then show ?case by (cases "j = Suc n") (auto simp: le_Suc_eq)
qed

lemma first_argmax_first: "j < first_argmax f n \<Longrightarrow> f j < f (first_argmax f n)"
proof (induction n)
  case 0
  then show ?case by simp
next
  case (Suc n)
  show ?case
  proof (cases "f (first_argmax f n) < f (Suc n)")
    case True
    then have "first_argmax f (Suc n) = Suc n" by simp
    moreover have "f j \<le> f (first_argmax f n)"
      using Suc.prems calculation by (intro first_argmax_max) simp
    ultimately show ?thesis using True by simp
  next
    case False
    then show ?thesis using Suc by simp
  qed
qed

lemma argmax_scan_first_argmax:
  "argmax_scan (map (\<lambda>t. Fin (f t)) [Suc j..<Suc j + k]) (Suc j)
     (Fin (f (first_argmax f j))) (first_argmax f j) = first_argmax f (j + k)"
proof (induction k arbitrary: j)
  case 0
  then show ?case by simp
next
  case (Suc k)
  have u: "[Suc j..<Suc j + Suc k] = Suc j # [Suc (Suc j)..<Suc (Suc j) + k]"
    by (simp add: upt_conv_Cons)
  have r: "replaces (Fin (f (Suc j))) (Fin (f (first_argmax f j)))
             = (f (first_argmax f j) < f (Suc j))"
    by (simp add: replaces_def)
  let ?rest = "map (\<lambda>t. Fin (f t)) [Suc (Suc j)..<Suc (Suc j) + k]"
  have s: "argmax_scan (map (\<lambda>t. Fin (f t)) [Suc j..<Suc j + Suc k]) (Suc j)
             (Fin (f (first_argmax f j))) (first_argmax f j)
           = (if f (first_argmax f j) < f (Suc j)
              then argmax_scan ?rest (Suc (Suc j)) (Fin (f (Suc j))) (Suc j)
              else argmax_scan ?rest (Suc (Suc j)) (Fin (f (first_argmax f j))) (first_argmax f j))"
    unfolding u by (simp only: list.map argmax_scan.simps r)
  have t: "j + Suc k = Suc j + k" by simp
  show ?case
  proof (cases "f (first_argmax f j) < f (Suc j)")
    case True
    then have e: "first_argmax f (Suc j) = Suc j" by simp
    show ?thesis
      unfolding s t using Suc.IH[of "Suc j"] True by (simp only: e if_True)
  next
    case False
    then have e: "first_argmax f (Suc j) = first_argmax f j" by simp
    show ?thesis
      unfolding s t using Suc.IH[of "Suc j"] False by (simp only: e if_False)
  qed
qed

lemma np_argmax_first_argmax:
  assumes "0 < P"
  shows "np_argmax (map (\<lambda>t. Fin (f t)) [0..<P]) = Inr (first_argmax f (P - 1))"
proof -
  obtain k where P: "P = Suc k" using assms by (cases P) auto
  have u: "[0..<Suc k] = 0 # [Suc 0..<Suc 0 + k]"
    by (simp add: upt_conv_Cons)
  have "np_argmax (map (\<lambda>t. Fin (f t)) [0..<Suc k])
          = Inr (argmax_scan (map (\<lambda>t. Fin (f t)) [Suc 0..<Suc 0 + k]) 1 (Fin (f 0)) 0)"
    unfolding u by (simp only: np_argmax_def list.map list.case)
  also have "\<dots> = Inr (first_argmax f (0 + k))"
    using argmax_scan_first_argmax[of f 0 k] by simp
  finally show ?thesis by (simp add: P)
qed


text \<open>
  With labels 0 and 1, both present, no class consisting of a single trajectory, and a
  positive pooled variance at every point, the quantities of the code are those of the
  specification: \<open>sum(Y)\<close> counts the class-1 trajectories, \<open>mu_sigma\<close> is the score
  \<open>|mean_diff(t)| / sqrt(variance(t))\<close>, and the first selected feature is its first
  maximiser, for every \<open>n_components\<close> with which the call returns.
\<close>

lemma binary_label_counts:
  assumes "length X = length Y" and "set Y \<subseteq> {0, 1}"
  shows "sum_list Y = int (length (rows_where X Y 1)) \<and>
         int (length Y) - sum_list Y = int (length (rows_where X Y 0))"
  using assms
  by (induction X Y rule: list_induct2) (auto simp: rows_where_def)

lemma cov_entry_diag:
  assumes "rows \<noteq> []"
  shows "cov_entry rows t t = Fin (class_variance rows t)"
  using assms
  by (simp add: cov_entry_def class_variance_def mean_real_def column_def power2_eq_square o_def)

lemma class_means_nth:
  assumes "rows_where X Y 1 \<noteq> []" and "rows_where X Y 0 \<noteq> []" and "t < shape1 X"
  shows "class_means X Y ! t
           = Fin (mean_real (column (rows_where X Y 1) t) - mean_real (column (rows_where X Y 0) t))"
  using assms by (simp add: class_means_def mean_axis0_def np_mean_def column_def np_sub_def)

lemma pooled_variances_regular:
  fixes X :: "real list list" and Y :: "int list" and p1 p0 :: real
  assumes "length (rows_where X Y 1) \<noteq> 1" and "length (rows_where X Y 0) \<noteq> 1"
  defines "P \<equiv> shape1 X"
  defines "v \<equiv> map (\<lambda>a. map (\<lambda>b.
                 np_add (np_mul (Fin p1) (cov_entry (rows_where X Y 1) a b))
                        (np_mul (Fin p0) (cov_entry (rows_where X Y 0) a b))) [0..<P]) [0..<P]"
  shows "pooled_variances X Y p1 p0 = Inr v" and "square P v"
proof -
  let ?a = "map (map (np_mul (Fin p1))) (np_cov P (rows_where X Y 1))"
  let ?b = "map (map (np_mul (Fin p0))) (np_cov P (rows_where X Y 0))"
  have sa: "square P ?a" and sb: "square P ?b"
    by (intro square_map square_np_cov assms(1,2))+
  have "map2 (map2 np_add) ?a ?b = v"
    by (simp add: v_def np_cov_regular[OF assms(1)] np_cov_regular[OF assms(2)]
        list_eq_iff_nth_eq)
  then show "pooled_variances X Y p1 p0 = Inr v"
    using broadcast_matrix_square[OF sa sb, of np_add]
    by (simp add: pooled_variances_def P_def)
  show "square P v" by (simp add: v_def square_iff)
qed

lemma mu_sigma_binary:
  assumes len: "length Y = length X" and labels: "set Y = {0, 1}"
    and n1: "length (rows_where X Y 1) \<noteq> 1" and n0: "length (rows_where X Y 0) \<noteq> 1"
    and pos: "\<And>t. t < shape1 X \<Longrightarrow> 0 < spec_variance X Y t"
  shows "\<exists>v. pooled_variances X Y (real_of_int (sum_list Y) / real (length Y))
                (real_of_int (int (length Y) - sum_list Y) / real (length Y)) = Inr v \<and>
              square (shape1 X) v \<and>
              mu_sigma (class_means X Y) v = Inr (map (\<lambda>t. Fin (spec_score X Y t)) [0..<shape1 X])"
proof -
  let ?P = "shape1 X"
  let ?p1 = "real_of_int (sum_list Y) / real (length Y)"
  let ?p0 = "real_of_int (int (length Y) - sum_list Y) / real (length Y)"
  let ?means = "class_means X Y"
  define v where "v = map (\<lambda>a. map (\<lambda>b.
                 np_add (np_mul (Fin ?p1) (cov_entry (rows_where X Y 1) a b))
                        (np_mul (Fin ?p0) (cov_entry (rows_where X Y 0) a b))) [0..<?P]) [0..<?P]"
  have pv: "pooled_variances X Y ?p1 ?p0 = Inr v" and sq: "square ?P v"
    using pooled_variances_regular[OF n1 n0, of ?p1 ?p0] by (simp_all add: v_def)
  have r1: "rows_where X Y 1 \<noteq> []" and r0: "rows_where X Y 0 \<noteq> []"
    using rows_where_nonempty[of 1 Y X] rows_where_nonempty[of 0 Y X] len labels by simp_all
  have mm: "Min (set Y) = 0" "Max (set Y) = 1" using labels by simp_all
  have cnt: "real_of_int (sum_list Y) = real (length (rows_where X Y 1))"
    "real_of_int (int (length Y) - sum_list Y) = real (length (rows_where X Y 0))"
    using binary_label_counts[of X Y] len labels by simp_all
  let ?ms = "map2 np_div (map np_abs ?means) (map np_sqrt (np_diag v))"
  have ms: "mu_sigma ?means v = Inr ?ms" and lms: "length ?ms = ?P"
    using mu_sigma_square[OF length_class_means sq] by simp_all
  have "?ms = map (\<lambda>t. Fin (spec_score X Y t)) [0..<?P]"
  proof (rule nth_equalityI)
    show "length ?ms = length (map (\<lambda>t. Fin (spec_score X Y t)) [0..<?P])"
      unfolding lms by simp
    fix t assume "t < length ?ms"
    then have t: "t < ?P" by (simp only: lms)
    have ld: "length (np_diag v) = ?P"
      using t sq shape1_square[OF sq] by (simp add: np_diag_def square_iff)
    have d: "np_diag v ! t = v ! t ! t"
      using t sq shape1_square[OF sq] by (simp add: np_diag_def square_iff)
    have "v ! t ! t = Fin (?p1 * class_variance (rows_where X Y 1) t
                          + ?p0 * class_variance (rows_where X Y 0) t)"
      using t by (simp add: v_def cov_entry_diag[OF r1] cov_entry_diag[OF r0])
    then have vv: "v ! t ! t = Fin (spec_variance X Y t)"
      unfolding cnt by (simp add: spec_variance_def mm Let_def)
    have m: "?means ! t = Fin (spec_mean_diff X Y t)"
      unfolding class_means_nth[OF r1 r0 t] by (simp add: spec_mean_diff_def mm)
    have "?ms ! t = np_div (np_abs (?means ! t)) (np_sqrt (np_diag v ! t))"
      using t ld by (simp add: length_class_means)
    also have "\<dots> = Fin (spec_score X Y t)"
      unfolding d vv m spec_score_def using pos[OF t] by simp
    finally show "?ms ! t = map (\<lambda>t. Fin (spec_score X Y t)) [0..<?P] ! t"
      using t by simp
  qed
  with pv sq ms show ?thesis by simp
qed

lemma select_step_keeps_first:
  assumes "select_step lstsq means variances i st = Inr st'" and "0 < i"
  shows "selected_features st' ! 0 = selected_features st ! 0 \<and> score st' ! 0 = score st ! 0"
  using assms
  by (auto simp: select_step_def np_delete_def split: sum.splits if_splits)

lemma select_loop_keeps_first:
  assumes "select_loop lstsq means variances is st = Inr st'" and "list_all (\<lambda>i. 0 < i) is"
  shows "selected_features st' ! 0 = selected_features st ! 0 \<and> score st' ! 0 = score st ! 0"
  using assms
proof (induction "is" arbitrary: st)
  case Nil
  then show ?case by simp
next
  case (Cons i rest)
  from Cons.prems(1) obtain st1 where
    s: "select_step lstsq means variances i st = Inr st1"
    and l: "select_loop lstsq means variances rest st1 = Inr st'"
    by (auto split: sum.splits)
  have "0 < i" "list_all (\<lambda>i. 0 < i) rest" using Cons.prems(2) by simp_all
  with Cons.IH[OF l] select_step_keeps_first[OF s] show ?case by simp
qed

lemma rkhs_vs_first_point:
  assumes P: "1 \<le> shape1 X" and len: "length Y = length X" and labels: "set Y = {0, 1}"
    and n1: "length (rows_where X Y 1) \<noteq> 1" and n0: "length (rows_where X Y 0) \<noteq> 1"
    and pos: "\<And>t. t < shape1 X \<Longrightarrow> 0 < spec_variance X Y t"
    and run: "rkhs_vs lstsq X Y n = Inr (feats, scores)"
  shows "feats ! 0 = spec_first_point X Y \<and>
         scores ! 0 = Fin (spec_score X Y (spec_first_point X Y))"
proof -
  let ?P = "shape1 X"
  let ?k = "spec_first_point X Y"
  define p1 where "p1 = real_of_int (sum_list Y) / real (length Y)"
  define p0 where "p0 = real_of_int (int (length Y) - sum_list Y) / real (length Y)"
  have n: "1 \<le> n" "n \<le> int ?P"
    using run by (auto simp: rkhs_vs_def split: if_splits)
  have "X \<noteq> []" using P by (auto simp: shape1_def)
  then have Y0: "real (length Y) \<noteq> 0" using len by simp
  have d1: "py_truediv (real_of_int (sum_list Y)) (real (length Y)) = Inr p1"
    and d0: "py_truediv (real (length Y) - real_of_int (sum_list Y)) (real (length Y)) = Inr p0"
    using Y0 by (simp_all add: py_truediv_def p1_def p0_def)
  from mu_sigma_binary[OF len labels n1 n0 pos] obtain v where
    pv: "pooled_variances X Y p1 p0 = Inr v"
    and ms: "mu_sigma (class_means X Y) v = Inr (map (\<lambda>t. Fin (spec_score X Y t)) [0..<?P])"
    unfolding p1_def p0_def by blast
  have a: "np_argmax (map (\<lambda>t. Fin (spec_score X Y t)) [0..<?P]) = Inr ?k"
    unfolding spec_first_point_def by (rule np_argmax_first_argmax) (use P in simp)
  have k: "?k < ?P"
    using first_argmax_le[of "spec_score X Y" "?P - 1"] P by (simp add: spec_first_point_def)
  let ?st = "\<lparr>selected_features = (replicate (nat n) (0::nat))[0 := ?k],
               score = (replicate (nat n) (Fin 0))[0 := Fin (spec_score X Y ?k)],
               indexes = take ?k [0..<?P] @ drop (Suc ?k) [0..<?P]\<rparr>"
  have "rkhs_vs lstsq X Y n =
          (case select_loop lstsq (class_means X Y) v [1..<nat n] ?st of
             Inl e \<Rightarrow> Inl e | Inr st \<Rightarrow> Inr (selected_features st, score st))"
    using n k
    by (simp add: rkhs_vs_def Let_def len[symmetric] d1 d0 pv ms a np_delete_def)
  with run obtain st' where
    l: "select_loop lstsq (class_means X Y) v [1..<nat n] ?st = Inr st'"
    and r: "feats = selected_features st'" "scores = score st'"
    by (auto split: sum.splits)
  have "list_all (\<lambda>i. 0 < i) [1..<nat n]" by (simp add: list_all_iff)
  from select_loop_keeps_first[OF l this] have
    "feats ! 0 = (replicate (nat n) (0::nat))[0 := ?k] ! 0"
    "scores ! 0 = (replicate (nat n) (Fin 0))[0 := Fin (spec_score X Y ?k)] ! 0"
    by (simp_all add: r)
  then show ?thesis using n(1) by simp
qed

text \<open>Ties, nan and infinities in \<open>np.argmax\<close>.\<close>

lemma np_argmax_examples:
  "np_argmax [Fin 1, Fin 3, Fin 3, Fin 2] = Inr 1"
  "np_argmax [Fin 1, NaN, PInf, NaN] = Inr 1"
  "np_argmax [Fin 1, PInf, Fin 7, PInf] = Inr 1"
  "np_argmax [] = Inl (ValueError EmptySequence)"
  by (simp_all add: np_argmax_def replaces_def)



text \<open>Evaluation of \<open>_rkhs_vs\<close> on the example inputs.\<close>

lemmas rkhs_vs_eval =
  rkhs_vs_def shape1_def class_means_def pooled_variances_def mu_sigma_def mean_axis0_def
  np_cov_def cov_entry_def row_variance_def np_mean_def mean_real_def column_def rows_where_def
  np_diag_def np_argmax_def np_delete_def py_truediv_def np_sub_def replaces_def
  broadcast_matrix_def broadcast_vector_def same_shape_def Let_def upt_rec

lemma rkhs_vs_labels_1_2: "rkhs_vs lstsq example_X [1, 1, 2, 2] 1 = Inr ([0], [NaN])"
  by (simp add: rkhs_vs_eval example_X_def)

lemma rkhs_vs_labels_0_1: "rkhs_vs lstsq example_X [0, 0, 1, 1] 1 = Inr ([1], [Fin 10])"
  by (simp add: rkhs_vs_eval example_X_def real_sqrt_divide)

lemma rkhs_vs_labels_1_2_loop:
  "rkhs_vs finite_only_solver example_X [1, 1, 2, 2] 2 = Inl LinAlgError"
  by (simp add: rkhs_vs_eval example_X_def select_step_def candidate_score_def
      take_indices_def submatrix_def finite_only_solver_def numeral_2_eq_2)

lemma rkhs_vs_two_trajectories:
  "rkhs_vs lstsq two_trajectories [0, 1] 2 = Inl IndexError"
  by (simp add: rkhs_vs_eval two_trajectories_def select_step_def candidate_score_def
      take_indices_def submatrix_def power2_eq_square numeral_2_eq_2)

lemma spec_first_point_labels_1_2: "spec_first_point example_X [1, 1, 2, 2] = 1"
  by (simp add: spec_first_point_def example_X_def shape1_def spec_score_def rows_where_def
      spec_mean_diff_def spec_variance_def column_def mean_real_def class_variance_def Let_def
      power2_eq_square real_sqrt_divide)

lemma example_check_1_2: "check_X_y example_X [1, 1, 2, 2] = Inr (example_X, [1, 1, 2, 2])"
  by (simp add: check_X_y_def check_array_def example_X_facts)

lemma two_trajectories_facts:
  "rectangular two_trajectories" "shape1 two_trajectories = 2" "length two_trajectories = 2"
  "dim_domain two_trajectories_grid = 1" "dim_codomain two_trajectories_grid = 1"
  "coordinate0 (data_matrix two_trajectories_grid) = Inr two_trajectories"
  "check_X_y two_trajectories [0, 1] = Inr (two_trajectories, [0, 1])"
  by (simp_all add: two_trajectories_def two_trajectories_grid_def rectangular_def shape1_def
      dim_domain_def coordinate0_def check_X_y_def check_array_def)

lemma two_trajectories_variances:
  "pooled_variances two_trajectories [0, 1] (1 / 2) (1 / 2) = Inr [[Fin 4]]"
  by (simp add: pooled_variances_def two_trajectories_def rows_where_def np_cov_def
      row_variance_def mean_real_def broadcast_matrix_def same_shape_def power2_eq_square)

text \<open>
  Claim C4 at an input where the code departs from it. The four trajectories of the
  example are labelled 1, 1, 2, 2: \<open>fit\<close> accepts them (two distinct labels) and selects
  point 0 with score nan, because the class with label 0 is empty and its mean is nan at
  every point. The class means differ only at point 1, where
  \<open>|mean_diff| / sqrt(variance) = 10\<close>, so the point of the claim is 1; and the same
  trajectories labelled 0, 0, 1, 1 do give point 1 with score 10.
\<close>

theorem C4_labels_one_two:
  "rkvs_fit echo_solver (RKHSVariableSelection_init 1) example_grid [1, 1, 2, 2]
     = (\<lparr>n_components = 1, features_shape_fit = Some [2], features_fit = Some [0],
         scores_fit = Some [NaN]\<rparr>, None) \<and>
   spec_first_point example_X [1, 1, 2, 2] = 1 \<and>
   rkvs_fit echo_solver (RKHSVariableSelection_init 1) example_grid [0, 0, 1, 1]
     = (\<lparr>n_components = 1, features_shape_fit = Some [2], features_fit = Some [1],
         scores_fit = Some [Fin 10]\<rparr>, None)"
proof -
  have c: "card (set [1, 1, 2, 2 :: int]) = 2" "card (set [0, 0, 1, 1 :: int]) = 2" by simp_all
  show ?thesis
    by (simp add: rkvs_fit_def Let_def c example_grid_facts example_check example_check_1_2
        example_X_facts RKHSVariableSelection_init_def rkhs_vs_labels_1_2 rkhs_vs_labels_0_1
        spec_first_point_labels_1_2)
qed

text \<open>
  Claim C9 at inputs where the code departs from it, with \<open>n_components = P = 2\<close>. The
  four example trajectories labelled 1, 1, 2, 2 are accepted by \<open>fit\<close>; the means and the
  covariance are nan, and the least-squares step of the first round raises. Two
  trajectories labelled 0 and 1, one per class: each class covariance is a single
  number, the pooled covariance is a \<open>1 \<times> 1\<close> matrix, and indexing it with the two points
  raises an index error.
\<close>

theorem C9_selection_raises:
  "rkhs_vs finite_only_solver example_X [1, 1, 2, 2] 2 = Inl LinAlgError \<and>
   snd (rkvs_fit finite_only_solver (RKHSVariableSelection_init 2) example_grid [1, 1, 2, 2])
     = Some LinAlgError \<and>
   rkhs_vs echo_solver two_trajectories [0, 1] 2 = Inl IndexError \<and>
   snd (rkvs_fit echo_solver (RKHSVariableSelection_init 2) two_trajectories_grid [0, 1])
     = Some IndexError"
proof -
  have c: "card (set [1, 1, 2, 2 :: int]) = 2" "card (set [0, 1 :: int]) = 2" by simp_all
  show ?thesis
    by (simp add: rkvs_fit_def Let_def c example_grid_facts example_check_1_2
        two_trajectories_facts RKHSVariableSelection_init_def rkhs_vs_labels_1_2_loop
        rkhs_vs_two_trajectories)
qed

text \<open>
  Claim C10 at an input where the code departs from it. Two trajectories on two points,
  one per class, and \<open>n_components = 2\<close>: the precondition \<open>1 \<le> n_components \<le> P\<close> holds, the
  pooled covariance is the \<open>1 \<times> 1\<close> matrix \<open>[[4]]\<close>, the first round indexes it with the
  points 0 and 1, and the call ends with an index error.
\<close>

theorem C10_index_out_of_bounds:
  "shape1 two_trajectories = 2 \<and>
   pooled_variances two_trajectories [0, 1] (1 / 2) (1 / 2) = Inr [[Fin 4]] \<and>
   submatrix [[Fin 4]] [0, 1] = Inl IndexError \<and>
   rkhs_vs lstsq two_trajectories [0, 1] 2 = Inl IndexError"
  by (simp add: two_trajectories_facts two_trajectories_variances rkhs_vs_two_trajectories
      submatrix_def)

section \<open>Basis smoother and fitted state: proofs\<close>

lemma points_equal_same_length:
  assumes "length fitted = length given"
  shows "points_equal fitted given \<longleftrightarrow> fitted = given"
  using assms
  by (induction fitted given rule: list_induct2) (simp_all add: points_equal_def)

lemma basis_transform_checked:
  assumes "input_points_fit self = Some fitted" and "input_points X = Inr given"
    and "length fitted = length given"
  shows "basis_transform coef lin self X =
           (if fitted = given then (if return_basis self then coef self X else lin self X)
            else Inl AssertionError)"
  using assms by (simp add: basis_transform_def points_equal_same_length)

text \<open>
  Claim C6 at an input where the code departs from it. A smoother with
  \<open>return_basis=True\<close> is fitted on irregular data observed at the points 0 and 0.5 and then
  transforms irregular data observed at 0, 0.5 and 1: the input points differ from the
  recorded ones, yet the assertion holds, because \<open>zip\<close> stops after the two recorded
  points, and \<open>transform\<close> returns what the coefficient computation returns. The same
  happens between a grid on a two-dimensional domain and a grid on a one-dimensional one.
\<close>

theorem C6_zip_stops_at_shorter:
  "input_points_fit (fst (basis_fit no_super_fit (BasisSmoother_init None True) irregular_2))
     = Some [[0], [0.5]] \<and>
   input_points irregular_3 = Inr [[0], [0.5], [1]] \<and>
   basis_transform return_input return_input
     (fst (basis_fit no_super_fit (BasisSmoother_init None True) irregular_2)) irregular_3
     = Inr irregular_3 \<and>
   input_points_fit (fst (basis_fit no_super_fit (BasisSmoother_init None True) grid_2d))
     = Some [[0, 1], [5, 6]] \<and>
   input_points grid_1d = Inr [[0, 1]] \<and>
   basis_transform return_input return_input
     (fst (basis_fit no_super_fit (BasisSmoother_init None True) grid_2d)) grid_1d
     = Inr grid_1d"
  by (simp add: basis_fit_def basis_transform_def BasisSmoother_init_def input_points_def
      points_equal_def return_input_def irregular_2_def irregular_3_def grid_1d_def grid_2d_def
      Let_def)

text \<open>
  Claim C7 as stated fails: \<open>BasisSmoother.transform\<close> on an instance that was never fitted
  raises \<open>AttributeError\<close>, not the not-fitted error.
\<close>

theorem C7_counterexample:
  "basis_transform return_input return_input (BasisSmoother_init None False) grid_1d
     = Inl AttributeError"
  by (simp add: basis_transform_def BasisSmoother_init_def)

text \<open>
  Claim C7, amended. \<open>RKHSVariableSelection.transform\<close> before \<open>fit\<close> raises the not-fitted
  error. \<open>BasisSmoother.transform\<close> before \<open>fit\<close> raises \<open>AttributeError\<close>.
  \<open>OutliergramOutlierDetector\<close> has no method \<open>predict\<close>: looking it up raises
  \<open>AttributeError\<close>, while \<open>fit_predict\<close> exists.
\<close>

theorem C7_not_fitted:
  "rkvs_transform (RKHSVariableSelection_init n) X = Inl NotFittedError \<and>
   basis_transform coef lin (BasisSmoother_init out_points ret_basis) Z = Inl AttributeError \<and>
   outliergram_lookup ''predict'' = Inl AttributeError \<and>
   outliergram_lookup ''fit_predict'' = Inr ''fit_predict''"
  by (simp add: rkvs_transform_def rkvs_is_fitted_def RKHSVariableSelection_init_def
      basis_transform_def BasisSmoother_init_def outliergram_lookup_def outliergram_methods_def)

end
